theory Spec2Isabelle
  imports Complex_Main "HOL-Library.Char_ord" "HOL-Library.List_Lexorder" "HOL-Library.Multiset"
    "HOL-Library.Log_Nat"
begin

section \<open>Data model\<close>

text \<open>
  The application keeps its books as a list of journal entries over a list of accounts.
  A JavaScript \<open>number\<close> is an IEEE-754 double. The functions named after the source
  (\<open>computeAccountBalances\<close>, \<open>buildReports\<close>, \<open>buildLedgerEntries\<close>, ...) carry the
  arithmetic the code writes down out exactly, on rationals. Where a property turns on
  rounding, the same loop is given a second time with the runtime's addition and
  subtraction as parameters (\<open>computeAccountBalancesWith\<close>, \<open>buildReportsWith\<close>,
  \<open>buildLedgerEntriesWith\<close>); \<open>dadd\<close> and \<open>dsub\<close> below are the double operations on
  finite values. Identifiers and dates are strings; the operators \<open><=\<close> and \<open>>=\<close> of the
  source compare strings by code units, which is the lexicographic order of the characters.
\<close>

type_synonym number = rat

datatype AccountType = Asset | Liability | Equity | Revenue | Expense

record Account =
  acc_id :: string
  acc_name :: string
  acc_code :: string
  acc_type :: AccountType
  acc_description :: "string option"
  acc_isSystem :: bool

record JournalLine =
  line_id :: string
  accountId :: string
  description :: "string option"
  debit :: number
  credit :: number

record JournalEntry =
  entry_id :: string
  date :: string
  reference :: string
  narration :: "string option"
  lines :: "JournalLine list"

section \<open>Runtime functions used by the modules\<close>

text \<open>
  \<open>String.prototype.localeCompare\<close> orders strings by the runtime's collation, which is
  not defined here: every function that calls it takes it as a parameter, and a property
  that depends on the order it gives states what it needs of it. \<open>codeUnitCompare\<close> is
  the comparison by code units, negative, zero or positive as the first string is before,
  equal to or after the second; a collation agrees with it on ISO dates.
\<close>

definition codeUnitCompare :: "string \<Rightarrow> string \<Rightarrow> int" where
  "codeUnitCompare a b = (if a < b then - 1 else if a = b then 0 else 1)"

definition isDigit :: "char \<Rightarrow> bool" where
  "isDigit c \<longleftrightarrow> CHR ''0'' \<le> c \<and> c \<le> CHR ''9''"

text \<open>An ISO date \<open>YYYY-MM-DD\<close>, the form a date input gives: ten characters, digits and two hyphens.\<close>

definition isoDate :: "string \<Rightarrow> bool" where
  "isoDate s \<longleftrightarrow>
     length s = 10
     \<and> list_all isDigit (take 4 s) \<and> s ! 4 = CHR ''-''
     \<and> list_all isDigit (take 2 (drop 5 s)) \<and> s ! 7 = CHR ''-''
     \<and> list_all isDigit (drop 8 s)"

text \<open>
  \<open>Array.prototype.sort\<close> with a comparator is a stable sort: an element goes before
  every element the comparator does not put it after. It is written here as an insertion
  sort that inserts the elements from the right.
\<close>

fun insertBy :: "('a \<Rightarrow> 'a \<Rightarrow> int) \<Rightarrow> 'a \<Rightarrow> 'a list \<Rightarrow> 'a list" where
  "insertBy cmp x [] = [x]"
| "insertBy cmp x (y # ys) = (if cmp x y \<le> 0 then x # y # ys else y # insertBy cmp x ys)"

definition js_sort :: "('a \<Rightarrow> 'a \<Rightarrow> int) \<Rightarrow> 'a list \<Rightarrow> 'a list" where
  "js_sort cmp xs = foldr (insertBy cmp) xs []"

text \<open>
  Double arithmetic on finite values. A finite double is a rational; \<open>toDouble\<close> rounds a
  rational to the nearest double, ties to even, with 53 bits of significand and the
  smallest exponent \<open>-1022\<close> (results of magnitude \<open>2 ^ 1024\<close> and more, which the
  runtime turns into an infinity, are outside this model). \<open>expo x\<close> is the exponent of
  \<open>x\<close>: \<open>2 ^ expo x \<le> \<bar>x\<bar> < 2 ^ (expo x + 1)\<close>. The sum and the difference of two
  doubles are the exact results rounded once.
\<close>

definition pow2 :: "int \<Rightarrow> rat" where
  "pow2 n = (if n \<ge> 0 then 2 ^ nat n else 1 / 2 ^ nat (- n))"

definition expo :: "rat \<Rightarrow> int" where
  "expo x = (let pq = quotient_of \<bar>x\<bar>; e0 = bitlen (fst pq) - bitlen (snd pq)
             in if pow2 e0 \<le> \<bar>x\<bar> then e0 else e0 - 1)"

definition roundHalfEven :: "rat \<Rightarrow> int" where
  "roundHalfEven r =
     (let f = \<lfloor>r\<rfloor>; d = r - of_int f
      in if d < 1 / 2 then f else if d > 1 / 2 then f + 1 else if even f then f else f + 1)"

definition toDouble :: "rat \<Rightarrow> rat" where
  "toDouble x =
     (if x = 0 then 0
      else (let e = max (expo x) (- 1022)
            in of_int (roundHalfEven (x * pow2 (52 - e))) * pow2 (e - 52)))"

definition dadd :: "number \<Rightarrow> number \<Rightarrow> number" where
  "dadd a b = toDouble (a + b)"

definition dsub :: "number \<Rightarrow> number \<Rightarrow> number" where
  "dsub a b = toDouble (a - b)"

section \<open>Balance aggregator (Reports module)\<close>

type_synonym balances = "string \<rightharpoonup> number"

text \<open>\<open>map.get(k) ?? 0\<close>\<close>

definition getOr0 :: "balances \<Rightarrow> string \<Rightarrow> number" where
  "getOr0 m k = (case m k of None \<Rightarrow> 0 | Some v \<Rightarrow> v)"

text \<open>The body of the inner loop: one \<open>map.set\<close> per journal line.\<close>

definition postLine :: "balances \<Rightarrow> JournalLine \<Rightarrow> balances" where
  "postLine m l = m(accountId l \<mapsto> getOr0 m (accountId l) + debit l - credit l)"

definition computeAccountBalances :: "JournalEntry list \<Rightarrow> balances" where
  "computeAccountBalances entries =
     foldl (\<lambda>m entry. foldl postLine m (lines entry)) Map.empty entries"

text \<open>
  The same two loops over the runtime's addition and subtraction:
  \<open>(map.get(k) ?? 0) + line.debit - line.credit\<close> adds first and subtracts second.
\<close>

definition postLineWith :: "(number \<Rightarrow> number \<Rightarrow> number) \<Rightarrow> (number \<Rightarrow> number \<Rightarrow> number)
    \<Rightarrow> balances \<Rightarrow> JournalLine \<Rightarrow> balances" where
  "postLineWith add sub m l =
     m(accountId l \<mapsto> sub (add (getOr0 m (accountId l)) (debit l)) (credit l))"

definition computeAccountBalancesWith :: "(number \<Rightarrow> number \<Rightarrow> number)
    \<Rightarrow> (number \<Rightarrow> number \<Rightarrow> number) \<Rightarrow> JournalEntry list \<Rightarrow> balances" where
  "computeAccountBalancesWith add sub entries =
     foldl (\<lambda>m entry. foldl (postLineWith add sub) m (lines entry)) Map.empty entries"

section \<open>Report builders (Reports module)\<close>

record AccountAmount =
  aa_account :: Account
  amount :: number

record ProfitAndLoss =
  pnl_periodStart :: string
  pnl_periodEnd :: string
  revenueTotal :: number
  expenseTotal :: number
  grossProfit :: number
  netProfit :: number
  pnl_revenueAccounts :: "AccountAmount list"
  pnl_expenseAccounts :: "AccountAmount list"

record BalanceSheetTotals =
  assetTotal :: number
  liabilityTotal :: number
  equityTotal :: number

record BalanceSheet =
  bs_periodEnd :: string
  assets :: "AccountAmount list"
  liabilities :: "AccountAmount list"
  equity :: "AccountAmount list"
  totals :: BalanceSheetTotals

record TrialBalanceLine =
  tb_account :: Account
  tb_debit :: number
  tb_credit :: number

record TrialBalance =
  tb_periodStart :: string
  tb_periodEnd :: string
  tb_lines :: "TrialBalanceLine list"
  totalDebit :: number
  totalCredit :: number

record Reports =
  pnl :: ProfitAndLoss
  balanceSheet :: BalanceSheet
  trialBalance :: TrialBalance

text \<open>The date filter shared by \<open>buildReports\<close> and \<open>buildLedgerEntries\<close>.\<close>

definition inRange :: "string \<Rightarrow> string \<Rightarrow> JournalEntry \<Rightarrow> bool" where
  "inRange fromDate toDate entry \<longleftrightarrow> date entry \<ge> fromDate \<and> date entry \<le> toDate"

text \<open>\<open>items.reduce((acc, item) => acc + item.amount, 0)\<close>\<close>

definition sumAmounts :: "AccountAmount list \<Rightarrow> number" where
  "sumAmounts items = foldl (\<lambda>acc item. acc + amount item) 0 items"

definition trialBalanceLine :: "balances \<Rightarrow> Account \<Rightarrow> TrialBalanceLine" where
  "trialBalanceLine bal account =
     (let balance = getOr0 bal (acc_id account)
      in \<lparr> tb_account = account,
           tb_debit = (if balance > 0 then balance else 0),
           tb_credit = (if balance < 0 then - balance else 0) \<rparr>)"

definition buildReports :: "JournalEntry list \<Rightarrow> Account list \<Rightarrow> string \<Rightarrow> string \<Rightarrow> Reports" where
  "buildReports entries accounts fromDate toDate =
     (let filteredEntries = filter (inRange fromDate toDate) entries;
          bal = computeAccountBalances filteredEntries;
          pnlRevenues =
            map (\<lambda>account. \<lparr> aa_account = account, amount = - getOr0 bal (acc_id account) \<rparr>)
              (filter (\<lambda>account. acc_type account = Revenue) accounts);
          pnlExpenses =
            map (\<lambda>account. \<lparr> aa_account = account, amount = getOr0 bal (acc_id account) \<rparr>)
              (filter (\<lambda>account. acc_type account = Expense) accounts);
          revenueTotal = sumAmounts pnlRevenues;
          expenseTotal = sumAmounts pnlExpenses;
          pnl = \<lparr> pnl_periodStart = fromDate,
                  pnl_periodEnd = toDate,
                  revenueTotal = revenueTotal,
                  expenseTotal = expenseTotal,
                  grossProfit = revenueTotal - expenseTotal,
                  netProfit = revenueTotal - expenseTotal,
                  pnl_revenueAccounts = pnlRevenues,
                  pnl_expenseAccounts = pnlExpenses \<rparr>;
          assets =
            map (\<lambda>account. \<lparr> aa_account = account, amount = getOr0 bal (acc_id account) \<rparr>)
              (filter (\<lambda>account. acc_type account = Asset) accounts);
          liabilities =
            map (\<lambda>account. \<lparr> aa_account = account, amount = - getOr0 bal (acc_id account) \<rparr>)
              (filter (\<lambda>account. acc_type account = Liability) accounts);
          equity =
            map (\<lambda>account. \<lparr> aa_account = account, amount = - getOr0 bal (acc_id account) \<rparr>)
              (filter (\<lambda>account. acc_type account = Equity) accounts);
          balanceSheet = \<lparr> bs_periodEnd = toDate,
                           assets = assets,
                           liabilities = liabilities,
                           equity = equity,
                           totals = \<lparr> assetTotal = sumAmounts assets,
                                      liabilityTotal = sumAmounts liabilities,
                                      equityTotal = sumAmounts equity \<rparr> \<rparr>;
          trialBalanceLines = map (trialBalanceLine bal) accounts;
          trialBalance = \<lparr> tb_periodStart = fromDate,
                           tb_periodEnd = toDate,
                           tb_lines = trialBalanceLines,
                           totalDebit = foldl (\<lambda>acc line. acc + tb_debit line) 0 trialBalanceLines,
                           totalCredit = foldl (\<lambda>acc line. acc + tb_credit line) 0 trialBalanceLines \<rparr>
      in \<lparr> pnl = pnl, balanceSheet = balanceSheet, trialBalance = trialBalance \<rparr>)"

text \<open>
  \<open>buildReports\<close> over the runtime's addition and subtraction. Negation and comparison
  with 0 do not round.
\<close>

definition sumAmountsWith :: "(number \<Rightarrow> number \<Rightarrow> number) \<Rightarrow> AccountAmount list \<Rightarrow> number" where
  "sumAmountsWith add items = foldl (\<lambda>acc item. add acc (amount item)) 0 items"

definition buildReportsWith :: "(number \<Rightarrow> number \<Rightarrow> number) \<Rightarrow> (number \<Rightarrow> number \<Rightarrow> number)
    \<Rightarrow> JournalEntry list \<Rightarrow> Account list \<Rightarrow> string \<Rightarrow> string \<Rightarrow> Reports" where
  "buildReportsWith add sub entries accounts fromDate toDate =
     (let filteredEntries = filter (inRange fromDate toDate) entries;
          bal = computeAccountBalancesWith add sub filteredEntries;
          pnlRevenues =
            map (\<lambda>account. \<lparr> aa_account = account, amount = - getOr0 bal (acc_id account) \<rparr>)
              (filter (\<lambda>account. acc_type account = Revenue) accounts);
          pnlExpenses =
            map (\<lambda>account. \<lparr> aa_account = account, amount = getOr0 bal (acc_id account) \<rparr>)
              (filter (\<lambda>account. acc_type account = Expense) accounts);
          revenueTotal = sumAmountsWith add pnlRevenues;
          expenseTotal = sumAmountsWith add pnlExpenses;
          pnl = \<lparr> pnl_periodStart = fromDate,
                  pnl_periodEnd = toDate,
                  revenueTotal = revenueTotal,
                  expenseTotal = expenseTotal,
                  grossProfit = sub revenueTotal expenseTotal,
                  netProfit = sub revenueTotal expenseTotal,
                  pnl_revenueAccounts = pnlRevenues,
                  pnl_expenseAccounts = pnlExpenses \<rparr>;
          assets =
            map (\<lambda>account. \<lparr> aa_account = account, amount = getOr0 bal (acc_id account) \<rparr>)
              (filter (\<lambda>account. acc_type account = Asset) accounts);
          liabilities =
            map (\<lambda>account. \<lparr> aa_account = account, amount = - getOr0 bal (acc_id account) \<rparr>)
              (filter (\<lambda>account. acc_type account = Liability) accounts);
          equity =
            map (\<lambda>account. \<lparr> aa_account = account, amount = - getOr0 bal (acc_id account) \<rparr>)
              (filter (\<lambda>account. acc_type account = Equity) accounts);
          balanceSheet = \<lparr> bs_periodEnd = toDate,
                           assets = assets,
                           liabilities = liabilities,
                           equity = equity,
                           totals = \<lparr> assetTotal = sumAmountsWith add assets,
                                      liabilityTotal = sumAmountsWith add liabilities,
                                      equityTotal = sumAmountsWith add equity \<rparr> \<rparr>;
          trialBalanceLines = map (trialBalanceLine bal) accounts;
          trialBalance = \<lparr> tb_periodStart = fromDate,
                           tb_periodEnd = toDate,
                           tb_lines = trialBalanceLines,
                           totalDebit = foldl (\<lambda>acc line. add acc (tb_debit line)) 0 trialBalanceLines,
                           totalCredit = foldl (\<lambda>acc line. add acc (tb_credit line)) 0 trialBalanceLines \<rparr>
      in \<lparr> pnl = pnl, balanceSheet = balanceSheet, trialBalance = trialBalance \<rparr>)"

section \<open>Per-account ledger (Reports module)\<close>

record LedgerEntry =
  le_accountId :: string
  le_accountName :: string
  le_date :: string
  le_description :: "string option"
  le_reference :: string
  le_debit :: number
  le_credit :: number
  le_balance :: number

text \<open>The object pushed for one matching line, given the running balance after it.\<close>

definition ledgerRow :: "Account \<Rightarrow> JournalEntry \<Rightarrow> JournalLine \<Rightarrow> number \<Rightarrow> LedgerEntry" where
  "ledgerRow account entry line balance =
     \<lparr> le_accountId = acc_id account,
       le_accountName = acc_name account,
       le_date = date entry,
       le_description = (case description line of Some d \<Rightarrow> Some d | None \<Rightarrow> narration entry),
       le_reference = reference entry,
       le_debit = debit line,
       le_credit = credit line,
       le_balance = balance \<rparr>"

text \<open>
  The loop state is the running balance and the rows pushed so far. \<open>pushLine\<close> is the
  body of the inner loop, \<open>pushEntry\<close> the body of the outer one.
\<close>

definition pushLine :: "Account \<Rightarrow> JournalEntry \<Rightarrow> number \<times> LedgerEntry list \<Rightarrow> JournalLine
    \<Rightarrow> number \<times> LedgerEntry list" where
  "pushLine account entry st line =
     (let balance = fst st + (debit line - credit line)
      in (balance, snd st @ [ledgerRow account entry line balance]))"

definition pushEntry :: "Account \<Rightarrow> number \<times> LedgerEntry list \<Rightarrow> JournalEntry
    \<Rightarrow> number \<times> LedgerEntry list" where
  "pushEntry account st entry =
     foldl (pushLine account entry) st
       (filter (\<lambda>line. accountId line = acc_id account) (lines entry))"

definition buildLedgerEntries :: "(string \<Rightarrow> string \<Rightarrow> int) \<Rightarrow> JournalEntry list \<Rightarrow> Account
    \<Rightarrow> string \<Rightarrow> string \<Rightarrow> LedgerEntry list" where
  "buildLedgerEntries localeCompare entries account fromDate toDate =
     (let relevantEntries =
            js_sort (\<lambda>a b. localeCompare (date a) (date b))
              (filter (inRange fromDate toDate) entries)
      in snd (foldl (pushEntry account) (0, []) relevantEntries))"

text \<open>
  The same loops over the runtime's addition and subtraction:
  \<open>balance += line.debit - line.credit\<close> subtracts first and adds second.
\<close>

definition pushLineWith :: "(number \<Rightarrow> number \<Rightarrow> number) \<Rightarrow> (number \<Rightarrow> number \<Rightarrow> number)
    \<Rightarrow> Account \<Rightarrow> JournalEntry \<Rightarrow> number \<times> LedgerEntry list \<Rightarrow> JournalLine
    \<Rightarrow> number \<times> LedgerEntry list" where
  "pushLineWith add sub account entry st line =
     (let balance = add (fst st) (sub (debit line) (credit line))
      in (balance, snd st @ [ledgerRow account entry line balance]))"

definition pushEntryWith :: "(number \<Rightarrow> number \<Rightarrow> number) \<Rightarrow> (number \<Rightarrow> number \<Rightarrow> number)
    \<Rightarrow> Account \<Rightarrow> number \<times> LedgerEntry list \<Rightarrow> JournalEntry \<Rightarrow> number \<times> LedgerEntry list" where
  "pushEntryWith add sub account st entry =
     foldl (pushLineWith add sub account entry) st
       (filter (\<lambda>line. accountId line = acc_id account) (lines entry))"

definition buildLedgerEntriesWith :: "(number \<Rightarrow> number \<Rightarrow> number) \<Rightarrow> (number \<Rightarrow> number \<Rightarrow> number)
    \<Rightarrow> (string \<Rightarrow> string \<Rightarrow> int) \<Rightarrow> JournalEntry list \<Rightarrow> Account \<Rightarrow> string \<Rightarrow> string
    \<Rightarrow> LedgerEntry list" where
  "buildLedgerEntriesWith add sub localeCompare entries account fromDate toDate =
     (let relevantEntries =
            js_sort (\<lambda>a b. localeCompare (date a) (date b))
              (filter (inRange fromDate toDate) entries)
      in snd (foldl (pushEntryWith add sub account) (0, []) relevantEntries))"

section \<open>Dashboard metrics (Dashboard module)\<close>

text \<open>
  The summary margin is the one place where the code divides by a value that can be zero.
  A JavaScript division by zero yields \<open>NaN\<close> or an infinity, which an exact rational
  cannot hold; the quotient is therefore an option, \<open>None\<close> standing for such a non-finite
  result, and so is the margin.
\<close>

definition js_div :: "number \<Rightarrow> number \<Rightarrow> number option" where
  "js_div a b = (if b = 0 then None else Some (a / b))"

record MonthlyMetric =
  mm_label :: string
  mm_revenue :: number
  mm_expense :: number
  mm_profit :: number

record Summary =
  sm_revenue :: number
  sm_expense :: number
  sm_profit :: number
  sm_margin :: "number option"

record DashboardMetrics =
  summary :: Summary
  monthly :: "MonthlyMetric list"
  recentEntries :: "JournalEntry list"

text \<open>
  The \<open>Map\<close> of monthly buckets is kept as an association list in insertion order.
  \<open>setBucket\<close> overwrites the bucket of a month that is present and appends a new month
  at the end, as \<open>Map.prototype.set\<close> does.
\<close>

fun setBucket :: "string \<Rightarrow> MonthlyMetric \<Rightarrow> (string \<times> MonthlyMetric) list
    \<Rightarrow> (string \<times> MonthlyMetric) list" where
  "setBucket k b [] = [(k, b)]"
| "setBucket k b (p # ps) = (if fst p = k then (k, b) # ps else p # setBucket k b ps)"

text \<open>The inner loop over the lines of one entry: the pair is (entryRevenue, entryExpense).\<close>

definition tallyLine :: "string list \<Rightarrow> string list \<Rightarrow> number \<times> number \<Rightarrow> JournalLine
    \<Rightarrow> number \<times> number" where
  "tallyLine revenueAccounts expenseAccounts st line =
     (let entryRevenue = (if accountId line \<in> set revenueAccounts
                          then fst st + (credit line - debit line) else fst st);
          entryExpense = (if accountId line \<in> set expenseAccounts
                          then snd st + (debit line - credit line) else snd st)
      in (entryRevenue, entryExpense))"

record DashboardState =
  monthlyAggregator :: "(string \<times> MonthlyMetric) list"
  ds_revenue :: number
  ds_expense :: number

text \<open>
  The body of the loop over the sorted entries. The label of a new bucket comes from the
  runtime's date formatting, which is a parameter here (\<open>monthLabel\<close>, applied to the
  entry's date), as is \<open>localeCompare\<close>.
\<close>

definition tallyEntry :: "(string \<Rightarrow> string) \<Rightarrow> string list \<Rightarrow> string list \<Rightarrow> DashboardState
    \<Rightarrow> JournalEntry \<Rightarrow> DashboardState" where
  "tallyEntry monthLabel revenueAccounts expenseAccounts st entry =
     (let monthKey = take 7 (date entry);
          bucket = (case map_of (monthlyAggregator st) monthKey of
                      Some b \<Rightarrow> b
                    | None \<Rightarrow> \<lparr> mm_label = monthLabel (date entry), mm_revenue = 0,
                                mm_expense = 0, mm_profit = 0 \<rparr>);
          tally = foldl (tallyLine revenueAccounts expenseAccounts) (0, 0) (lines entry);
          entryRevenue = fst tally;
          entryExpense = snd tally;
          bucketRevenue = mm_revenue bucket + entryRevenue;
          bucketExpense = mm_expense bucket + entryExpense
      in \<lparr> monthlyAggregator =
             setBucket monthKey
               (bucket\<lparr> mm_revenue := bucketRevenue, mm_expense := bucketExpense,
                         mm_profit := bucketRevenue - bucketExpense \<rparr>)
               (monthlyAggregator st),
           ds_revenue = ds_revenue st + entryRevenue,
           ds_expense = ds_expense st + entryExpense \<rparr>)"

definition buildDashboardMetrics :: "(string \<Rightarrow> string) \<Rightarrow> (string \<Rightarrow> string \<Rightarrow> int)
    \<Rightarrow> JournalEntry list \<Rightarrow> Account list \<Rightarrow> DashboardMetrics" where
  "buildDashboardMetrics monthLabel localeCompare entries accounts =
     (let revenueAccounts = map acc_id (filter (\<lambda>account. acc_type account = Revenue) accounts);
          expenseAccounts = map acc_id (filter (\<lambda>account. acc_type account = Expense) accounts);
          sortedEntries = js_sort (\<lambda>a b. localeCompare (date b) (date a)) entries;
          st = foldl (tallyEntry monthLabel revenueAccounts expenseAccounts)
                 \<lparr> monthlyAggregator = [], ds_revenue = 0, ds_expense = 0 \<rparr> sortedEntries;
          buckets = map (\<lambda>(k, bucket). (k, bucket\<lparr> mm_profit := mm_revenue bucket - mm_expense bucket \<rparr>))
                      (monthlyAggregator st);
          monthly = map snd (js_sort (\<lambda>a b. localeCompare (fst a) (fst b)) buckets);
          revenue = ds_revenue st;
          expense = ds_expense st;
          profit = revenue - expense;
          margin = (if revenue = 0 then Some 0
                    else map_option (\<lambda>q. q * 100) (js_div profit revenue))
      in \<lparr> summary = \<lparr> sm_revenue = revenue, sm_expense = expense, sm_profit = profit,
                        sm_margin = margin \<rparr>,
           monthly = monthly,
           recentEntries = take 8 sortedEntries \<rparr>)"

section \<open>Invoice totals (Invoicing module)\<close>

text \<open>
  The draft lines of an invoice hold what the user typed, as strings, and the code reads
  them with \<open>parseFloat\<close>. A parsed value is a rational or \<open>NaN\<close> (\<open>None\<close>), and
  \<open>NaN\<close> propagates through the arithmetic. The runtime's \<open>parseFloat\<close> is a parameter
  of the functions that call it.
\<close>

type_synonym parsed = "rat option"

definition nmul :: "parsed \<Rightarrow> parsed \<Rightarrow> parsed" where
  "nmul a b = (case a of None \<Rightarrow> None | Some x \<Rightarrow> (case b of None \<Rightarrow> None | Some y \<Rightarrow> Some (x * y)))"

definition nadd :: "parsed \<Rightarrow> parsed \<Rightarrow> parsed" where
  "nadd a b = (case a of None \<Rightarrow> None | Some x \<Rightarrow> (case b of None \<Rightarrow> None | Some y \<Rightarrow> Some (x + y)))"

definition nsub :: "parsed \<Rightarrow> parsed \<Rightarrow> parsed" where
  "nsub a b = (case a of None \<Rightarrow> None | Some x \<Rightarrow> (case b of None \<Rightarrow> None | Some y \<Rightarrow> Some (x - y)))"

text \<open>\<open>x / 100\<close>\<close>

definition percent :: "parsed \<Rightarrow> parsed" where
  "percent a = (case a of None \<Rightarrow> None | Some x \<Rightarrow> Some (x / 100))"

text \<open>\<open>!x\<close> on a number: true for 0 and for \<open>NaN\<close>.\<close>

definition falsy :: "parsed \<Rightarrow> bool" where
  "falsy a \<longleftrightarrow> a = None \<or> a = Some 0"

definition calculateLineTotal :: "parsed \<Rightarrow> parsed \<Rightarrow> parsed \<Rightarrow> parsed \<Rightarrow> parsed" where
  "calculateLineTotal quantity rate discount taxRate =
     (let base = nmul quantity rate;
          discountAmount = nmul base (percent discount);
          taxable = nsub base discountAmount;
          taxAmount = nmul taxable (percent taxRate)
      in nadd taxable taxAmount)"

record DraftInvoiceLine =
  dl_tempId :: string
  dl_inventoryId :: string
  dl_description :: string
  dl_quantity :: string
  dl_unitPrice :: string
  dl_discount :: string
  dl_taxRate :: string
  dl_warehouseId :: string

record InventoryItem =
  item_id :: string
  item_sku :: string
  item_name :: string
  item_unitPrice :: number
  item_quantity :: number
  item_stockByWarehouse :: "(string \<times> number) list"
  item_reorderPoint :: "number option"

record InvoiceTotals =
  subtotal :: parsed
  discountTotal :: parsed
  taxTotal :: parsed
  invoiceTotal :: parsed

text \<open>\<open>s || '0'\<close>: the empty string is replaced by \<open>'0'\<close>.\<close>

definition orZero :: "string \<Rightarrow> string" where
  "orZero s = (if s = [] then ''0'' else s)"

text \<open>
  The four values read at the top of the loop body. When the unit price of the line is
  empty the code parses the text of the inventory item's price (0 when the item is not
  found); a number printed by a template literal parses back to itself.
\<close>

definition lineQuantity :: "(string \<Rightarrow> parsed) \<Rightarrow> DraftInvoiceLine \<Rightarrow> parsed" where
  "lineQuantity parseFloat line = parseFloat (orZero (dl_quantity line))"

definition lineRate :: "(string \<Rightarrow> parsed) \<Rightarrow> InventoryItem list \<Rightarrow> DraftInvoiceLine \<Rightarrow> parsed" where
  "lineRate parseFloat inventoryItems line =
     (let inventory = find (\<lambda>item. item_id item = dl_inventoryId line) inventoryItems
      in if dl_unitPrice line \<noteq> [] then parseFloat (dl_unitPrice line)
         else Some (case inventory of Some item \<Rightarrow> item_unitPrice item | None \<Rightarrow> 0))"

definition lineDiscount :: "(string \<Rightarrow> parsed) \<Rightarrow> DraftInvoiceLine \<Rightarrow> parsed" where
  "lineDiscount parseFloat line = parseFloat (orZero (dl_discount line))"

definition lineTaxRate :: "(string \<Rightarrow> parsed) \<Rightarrow> DraftInvoiceLine \<Rightarrow> parsed" where
  "lineTaxRate parseFloat line = parseFloat (orZero (dl_taxRate line))"

text \<open>The loop body: the state is (subtotal, discountTotal, taxTotal).\<close>

definition totalsStep :: "(string \<Rightarrow> parsed) \<Rightarrow> InventoryItem list \<Rightarrow> parsed \<times> parsed \<times> parsed
    \<Rightarrow> DraftInvoiceLine \<Rightarrow> parsed \<times> parsed \<times> parsed" where
  "totalsStep parseFloat inventoryItems st line =
     (let quantity = lineQuantity parseFloat line
      in if falsy quantity then st
         else
           (let rate = lineRate parseFloat inventoryItems line;
                discount = lineDiscount parseFloat line;
                taxRate = lineTaxRate parseFloat line;
                base = nmul quantity rate;
                discountAmount = nmul base (percent discount);
                taxable = nsub base discountAmount;
                taxAmount = nmul taxable (percent taxRate)
            in (nadd (fst st) taxable,
                nadd (fst (snd st)) discountAmount,
                nadd (snd (snd st)) taxAmount)))"

definition computeTotals :: "(string \<Rightarrow> parsed) \<Rightarrow> DraftInvoiceLine list \<Rightarrow> InventoryItem list
    \<Rightarrow> InvoiceTotals" where
  "computeTotals parseFloat draftLines inventoryItems =
     (let st = foldl (totalsStep parseFloat inventoryItems) (Some 0, Some 0, Some 0) draftLines;
          subtotal = fst st;
          discountTotal = fst (snd st);
          taxTotal = snd (snd st)
      in \<lparr> subtotal = subtotal, discountTotal = discountTotal, taxTotal = taxTotal,
           invoiceTotal = nadd subtotal taxTotal \<rparr>)"

section \<open>Views that list the entries themselves (Journal and Dashboard modules)\<close>

text \<open>
  The journal table and the dashboard's recent entries render every line of every entry
  they show, with the account's name looked up in the current account list:
  \<open>account?.name ?? 'Account removed'\<close>.
\<close>

definition accountLabel :: "Account list \<Rightarrow> JournalLine \<Rightarrow> string" where
  "accountLabel accounts line =
     (case find (\<lambda>acc. acc_id acc = accountId line) accounts of
        Some account \<Rightarrow> acc_name account
      | None \<Rightarrow> ''Account removed'')"

text \<open>\<open>String.prototype.includes\<close>: the second string occurs in the first.\<close>

fun startsWith :: "string \<Rightarrow> string \<Rightarrow> bool" where
  "startsWith s [] = True"
| "startsWith [] (c # cs) = False"
| "startsWith (d # ds) (c # cs) = (d = c \<and> startsWith ds cs)"

fun str_includes :: "string \<Rightarrow> string \<Rightarrow> bool" where
  "str_includes [] needle = (needle = [])"
| "str_includes (d # ds) needle = (startsWith (d # ds) needle \<or> str_includes ds needle)"

text \<open>
  The entries shown by the journal table. The runtime's \<open>toLowerCase\<close> and \<open>trim\<close> are
  parameters. An optional chain on a missing narration or a missing account yields
  \<open>undefined\<close>, which counts as no match.
\<close>

definition journalFilteredEntries :: "(string \<Rightarrow> string) \<Rightarrow> (string \<Rightarrow> string) \<Rightarrow> JournalEntry list
    \<Rightarrow> Account list \<Rightarrow> string \<Rightarrow> string \<Rightarrow> string \<Rightarrow> JournalEntry list" where
  "journalFilteredEntries toLowerCase trim journalEntries accounts searchTerm fromDate toDate =
     filter (\<lambda>entry.
        (let matchesSearch =
               (length (trim searchTerm) = 0
                \<or> str_includes (toLowerCase (reference entry)) (toLowerCase searchTerm)
                \<or> (case narration entry of
                      None \<Rightarrow> False
                    | Some n \<Rightarrow> str_includes (toLowerCase n) (toLowerCase searchTerm))
                \<or> list_ex (\<lambda>line.
                      (case find (\<lambda>acc. acc_id acc = accountId line) accounts of
                         None \<Rightarrow> False
                       | Some account \<Rightarrow>
                           str_includes (toLowerCase (acc_name account)) (toLowerCase searchTerm)))
                     (lines entry));
             matchesFrom = (fromDate = [] \<or> date entry \<ge> fromDate);
             matchesTo = (toDate = [] \<or> date entry \<le> toDate)
         in matchesSearch \<and> matchesFrom \<and> matchesTo))
       journalEntries"

section \<open>Notions used to state the properties\<close>

text \<open>All journal lines of a list of entries, in document order.\<close>

definition allLines :: "JournalEntry list \<Rightarrow> JournalLine list" where
  "allLines entries = concat (map lines entries)"

text \<open>The sum of \<open>debit - credit\<close> over the lines that reference account \<open>k\<close>.\<close>

definition balanceOf :: "string \<Rightarrow> JournalLine list \<Rightarrow> number" where
  "balanceOf k ls = sum_list (map (\<lambda>l. debit l - credit l) (filter (\<lambda>l. accountId l = k) ls))"

text \<open>The double-entry invariant of one entry: its debits add up to its credits.\<close>

definition entryBalanced :: "JournalEntry \<Rightarrow> bool" where
  "entryBalanced entry \<longleftrightarrow> sum_list (map debit (lines entry)) = sum_list (map credit (lines entry))"

text \<open>The balance of account \<open>k\<close> over the entries dated within the period.\<close>

definition periodBalance :: "JournalEntry list \<Rightarrow> string \<Rightarrow> string \<Rightarrow> string \<Rightarrow> number" where
  "periodBalance entries fromDate toDate k =
     balanceOf k (allLines (filter (inRange fromDate toDate) entries))"

text \<open>The entries with every line that references account \<open>k\<close> taken out.\<close>

definition withoutAccount :: "string \<Rightarrow> JournalEntry list \<Rightarrow> JournalEntry list" where
  "withoutAccount k entries =
     map (\<lambda>entry. entry\<lparr> lines := filter (\<lambda>l. accountId l \<noteq> k) (lines entry) \<rparr>) entries"

text \<open>
  The postings of an account: its lines, each with the entry it belongs to, in the order
  of the entries and of the lines within an entry.
\<close>

definition postings :: "Account \<Rightarrow> JournalEntry list \<Rightarrow> (JournalEntry \<times> JournalLine) list" where
  "postings account entries =
     concat (map (\<lambda>entry. map (Pair entry)
                   (filter (\<lambda>line. accountId line = acc_id account) (lines entry))) entries)"

text \<open>
  The rows of a list of postings with the running balance written out: each row carries the
  balance before it plus its debit minus its credit.
\<close>

fun runningRows :: "Account \<Rightarrow> number \<Rightarrow> (JournalEntry \<times> JournalLine) list \<Rightarrow> LedgerEntry list" where
  "runningRows a b [] = []"
| "runningRows a b (p # ps) =
     ledgerRow a (fst p) (snd p) (b + (debit (snd p) - credit (snd p)))
       # runningRows a (b + (debit (snd p) - credit (snd p))) ps"

text \<open>What a ledger row shows of its posting: date, debit and credit.\<close>

definition rowPosting :: "LedgerEntry \<Rightarrow> string \<times> number \<times> number" where
  "rowPosting r = (le_date r, le_debit r, le_credit r)"

definition postingShown :: "JournalEntry \<times> JournalLine \<Rightarrow> string \<times> number \<times> number" where
  "postingShown p = (date (fst p), debit (snd p), credit (snd p))"

text \<open>
  An addition and a subtraction that do not round on whole numbers below \<open>2 ^ 53\<close>, as
  those of doubles do not.
\<close>

definition wholeExact :: "(number \<Rightarrow> number \<Rightarrow> number) \<Rightarrow> (number \<Rightarrow> number \<Rightarrow> number) \<Rightarrow> bool" where
  "wholeExact add sub \<longleftrightarrow>
     (\<forall>a b. a \<in> \<int> \<and> b \<in> \<int> \<and> \<bar>a + b\<bar> < 2 ^ 53 \<longrightarrow> add a b = a + b)
     \<and> (\<forall>a b. a \<in> \<int> \<and> b \<in> \<int> \<and> \<bar>a - b\<bar> < 2 ^ 53 \<longrightarrow> sub a b = a - b)"

text \<open>
  Lines whose debits and credits are whole numbers, with absolute values that add up to
  less than \<open>2 ^ 53\<close>: no sum or difference formed from them needs rounding.
\<close>

definition wholeAmounts :: "JournalLine list \<Rightarrow> bool" where
  "wholeAmounts ls \<longleftrightarrow>
     (\<forall>l \<in> set ls. debit l \<in> \<int> \<and> credit l \<in> \<int>)
     \<and> sum_list (map (\<lambda>l. \<bar>debit l\<bar> + \<bar>credit l\<bar>) ls) < 2 ^ 53"

text \<open>
  The arithmetic of one invoice line as the specification words it, on exact numbers:
  quantity \<open>q\<close>, unit price \<open>p\<close>, discount \<open>d\<close> per cent, tax rate \<open>t\<close> per cent.
\<close>

definition spec_base :: "rat \<Rightarrow> rat \<Rightarrow> rat" where
  "spec_base q p = q * p"

definition spec_discountAmount :: "rat \<Rightarrow> rat \<Rightarrow> rat \<Rightarrow> rat" where
  "spec_discountAmount q p d = spec_base q p * d / 100"

definition spec_taxable :: "rat \<Rightarrow> rat \<Rightarrow> rat \<Rightarrow> rat" where
  "spec_taxable q p d = spec_base q p - spec_discountAmount q p d"

definition spec_taxAmount :: "rat \<Rightarrow> rat \<Rightarrow> rat \<Rightarrow> rat \<Rightarrow> rat" where
  "spec_taxAmount q p d t = spec_taxable q p d * t / 100"

definition spec_lineTotal :: "rat \<Rightarrow> rat \<Rightarrow> rat \<Rightarrow> rat \<Rightarrow> rat" where
  "spec_lineTotal q p d t = spec_taxable q p d + spec_taxAmount q p d t"

section \<open>A sample ledger\<close>

text \<open>
  Two accounts and one sale: cash is debited 100 and sales is credited 100. The properties
  below are exercised on it.
\<close>

definition cash :: Account where
  "cash = \<lparr> acc_id = ''cash'', acc_name = ''Cash'', acc_code = ''1000'', acc_type = Asset,
            acc_description = None, acc_isSystem = True \<rparr>"

definition sales :: Account where
  "sales = \<lparr> acc_id = ''sales'', acc_name = ''Sales'', acc_code = ''4000'', acc_type = Revenue,
             acc_description = None, acc_isSystem = False \<rparr>"

definition sale :: JournalEntry where
  "sale = \<lparr> entry_id = ''e1'', date = ''2024-03-05'', reference = ''INV-1'', narration = None,
            lines = [\<lparr> line_id = ''l1'', accountId = ''cash'', description = None,
                       debit = 100, credit = 0 \<rparr>,
                     \<lparr> line_id = ''l2'', accountId = ''sales'', description = None,
                       debit = 0, credit = 100 \<rparr>] \<rparr>"

definition rentAccount :: Account where
  "rentAccount = \<lparr> acc_id = ''rent'', acc_name = ''Rent'', acc_code = ''5000'', acc_type = Expense,
                   acc_description = None, acc_isSystem = False \<rparr>"

text \<open>A one-legged entry: cash is credited 40 and nothing is debited.\<close>

definition oneLegged :: JournalEntry where
  "oneLegged = \<lparr> entry_id = ''e2'', date = ''2024-04-01'', reference = ''RENT'', narration = None,
                 lines = [\<lparr> line_id = ''l3'', accountId = ''cash'', description = None,
                            debit = 0, credit = 40 \<rparr>] \<rparr>"

text \<open>Two payments out of cash, each against an expense account.\<close>

definition rentPaid :: JournalEntry where
  "rentPaid = \<lparr> entry_id = ''e3'', date = ''2024-04-01'', reference = ''RENT-4'',
                narration = Some ''April rent'',
                lines = [\<lparr> line_id = ''l4'', accountId = ''rent'', description = None,
                           debit = 40, credit = 0 \<rparr>,
                         \<lparr> line_id = ''l5'', accountId = ''cash'', description = None,
                           debit = 0, credit = 40 \<rparr>] \<rparr>"

definition feePaid :: JournalEntry where
  "feePaid = \<lparr> entry_id = ''e4'', date = ''2024-05-10'', reference = ''FEE-5'', narration = None,
               lines = [\<lparr> line_id = ''l6'', accountId = ''fees'', description = None,
                          debit = 10, credit = 0 \<rparr>,
                        \<lparr> line_id = ''l7'', accountId = ''cash'', description = None,
                          debit = 0, credit = 10 \<rparr>] \<rparr>"

text \<open>Two more cash entries, one day before the sale and one day after the fee.\<close>

definition earlySale :: JournalEntry where
  "earlySale = \<lparr> entry_id = ''e5'', date = ''2024-03-04'', reference = ''INV-0'', narration = None,
                 lines = [\<lparr> line_id = ''l8'', accountId = ''cash'', description = None,
                            debit = 7, credit = 0 \<rparr>,
                          \<lparr> line_id = ''l9'', accountId = ''sales'', description = None,
                            debit = 0, credit = 7 \<rparr>] \<rparr>"

definition lateFee :: JournalEntry where
  "lateFee = \<lparr> entry_id = ''e6'', date = ''2024-05-11'', reference = ''FEE-6'', narration = None,
               lines = [\<lparr> line_id = ''l10'', accountId = ''fees'', description = None,
                          debit = 3, credit = 0 \<rparr>,
                        \<lparr> line_id = ''l11'', accountId = ''cash'', description = None,
                          debit = 0, credit = 3 \<rparr>] \<rparr>"

text \<open>
  A cash sale of a given amount, and three of them listed newest first with the amounts
  that the literals \<open>0.1\<close>, \<open>0.2\<close> and \<open>0.3\<close> denote.
\<close>

definition cashSale :: "string \<Rightarrow> string \<Rightarrow> number \<Rightarrow> JournalEntry" where
  "cashSale i d v =
     \<lparr> entry_id = i, date = d, reference = i, narration = None,
       lines = [\<lparr> line_id = i @ ''a'', accountId = ''cash'', description = None,
                  debit = v, credit = 0 \<rparr>,
                \<lparr> line_id = i @ ''b'', accountId = ''sales'', description = None,
                  debit = 0, credit = v \<rparr>] \<rparr>"

definition tenths :: "JournalEntry list" where
  "tenths = [cashSale ''s3'' ''2024-03-03'' (toDouble (1 / 10)),
             cashSale ''s2'' ''2024-03-02'' (toDouble (2 / 10)),
             cashSale ''s1'' ''2024-03-01'' (toDouble (3 / 10))]"

text \<open>
  A draft invoice line as typed into the form, and a reader of unsigned decimal integers
  that stands in for the runtime's \<open>parseFloat\<close> on such strings.
\<close>

definition parseDigits :: "string \<Rightarrow> parsed" where
  "parseDigits s =
     (if s = [] \<or> \<not> list_all isDigit s then None
      else Some (of_nat (foldl (\<lambda>n c. 10 * n + (of_char c - 48)) 0 s)))"

definition widgetLine :: DraftInvoiceLine where
  "widgetLine = \<lparr> dl_tempId = ''t1'', dl_inventoryId = ''widget'', dl_description = [],
                  dl_quantity = ''2'', dl_unitPrice = ''50'', dl_discount = ''10'',
                  dl_taxRate = ''18'', dl_warehouseId = [] \<rparr>"

section \<open>The balance aggregator computes the per-account sums\<close>

lemma foldl_nested_concat:
  "foldl (\<lambda>s e. foldl g s (h e)) s es = foldl g s (concat (map h es))"
  by (induction es arbitrary: s) simp_all

lemma computeAccountBalances_allLines:
  "computeAccountBalances es = foldl postLine Map.empty (allLines es)"
  by (simp add: computeAccountBalances_def allLines_def foldl_nested_concat)

lemma balanceOf_absent: "k \<notin> accountId ` set ls \<Longrightarrow> balanceOf k ls = 0"
proof -
  assume "k \<notin> accountId ` set ls"
  then have "filter (\<lambda>l. accountId l = k) ls = []"
    by (auto simp: filter_empty_conv)
  then show ?thesis by (simp add: balanceOf_def)
qed

lemma postLine_apply:
  "postLine m l k = (if k = accountId l then Some (getOr0 m k + debit l - credit l) else m k)"
  by (simp add: postLine_def)

lemma getOr0_postLine:
  "getOr0 (postLine m l) k =
     (if k = accountId l then getOr0 m k + debit l - credit l else getOr0 m k)"
  by (simp add: postLine_def getOr0_def)

lemma balanceOf_Cons:
  "balanceOf k (l # ls) = (if accountId l = k then debit l - credit l else 0) + balanceOf k ls"
  by (simp add: balanceOf_def)

lemma foldl_postLine:
  "foldl postLine m ls k =
     (if k \<in> accountId ` set ls then Some (getOr0 m k + balanceOf k ls) else m k)"
proof (induction ls arbitrary: m)
  case Nil
  then show ?case by simp
next
  case (Cons l ls)
  have "foldl postLine m (l # ls) k = foldl postLine (postLine m l) ls k"
    by simp
  also have "\<dots> = (if k \<in> accountId ` set ls
                     then Some (getOr0 (postLine m l) k + balanceOf k ls)
                     else postLine m l k)"
    by (rule Cons.IH)
  also have "\<dots> = (if k \<in> accountId ` set (l # ls)
                     then Some (getOr0 m k + balanceOf k (l # ls))
                     else m k)"
    by (auto simp: getOr0_postLine postLine_apply balanceOf_Cons balanceOf_absent)
  finally show ?case .
qed

lemma computeAccountBalances_apply:
  "computeAccountBalances es k =
     (if k \<in> accountId ` set (allLines es) then Some (balanceOf k (allLines es)) else None)"
  by (simp add: computeAccountBalances_allLines foldl_postLine getOr0_def)

lemma getOr0_computeAccountBalances:
  "getOr0 (computeAccountBalances es) k = balanceOf k (allLines es)"
  by (simp add: computeAccountBalances_allLines foldl_postLine getOr0_def balanceOf_absent)

text \<open>
  C2. For every list of entries and every account id, \<open>computeAccountBalances\<close> maps the id
  to the sum of \<open>debit - credit\<close> over all lines of all entries that reference it when some
  line references it, and has no binding for it otherwise. The function is defined by
  recursion over the finite lists of entries and lines, so it returns on every input, and its
  result depends on the entries alone.
\<close>

theorem computeAccountBalances_sum:
  "computeAccountBalances es k =
     (if k \<in> accountId ` set (allLines es)
      then Some (balanceOf k (allLines es))
      else None)"
  by (simp add: computeAccountBalances_allLines foldl_postLine getOr0_def)

theorem computeAccountBalances_sum_witness:
  "computeAccountBalances [sale, sale] ''sales'' = Some (- 200)
   \<and> computeAccountBalances [sale, sale] ''bank'' = None"
  using computeAccountBalances_sum [of "[sale, sale]" "''sales''"]
        computeAccountBalances_sum [of "[sale, sale]" "''bank''"]
  by (simp add: allLines_def balanceOf_def sale_def)

section \<open>Trial balance totals in exact arithmetic\<close>

lemma foldl_add_sum_list:
  "foldl (\<lambda>acc x. acc + f x) (a::rat) xs = a + sum_list (map f xs)"
  by (induction xs arbitrary: a) simp_all

lemma sumAmounts_sum_list: "sumAmounts xs = sum_list (map amount xs)"
  by (simp add: sumAmounts_def foldl_add_sum_list)

lemma getOr0_period:
  "getOr0 (computeAccountBalances (filter (inRange f t) es)) k = periodBalance es f t k"
  by (simp add: periodBalance_def getOr0_computeAccountBalances)

lemma tb_lines_buildReports:
  "tb_lines (trialBalance (buildReports es accs f t)) =
     map (\<lambda>a. \<lparr> tb_account = a,
               tb_debit = max (periodBalance es f t (acc_id a)) 0,
               tb_credit = max (- periodBalance es f t (acc_id a)) 0 \<rparr>) accs"
  by (simp add: buildReports_def Let_def trialBalanceLine_def getOr0_period max_def)

lemma totals_buildReports:
  "totalDebit (trialBalance (buildReports es accs f t)) =
     sum_list (map tb_debit (tb_lines (trialBalance (buildReports es accs f t))))"
  "totalCredit (trialBalance (buildReports es accs f t)) =
     sum_list (map tb_credit (tb_lines (trialBalance (buildReports es accs f t))))"
  by (simp_all add: buildReports_def Let_def foldl_add_sum_list)

lemma sum_single_match:
  "distinct (map acc_id accs) \<Longrightarrow> k \<in> acc_id ` set accs \<Longrightarrow>
     sum_list (map (\<lambda>a. if k = acc_id a then (c::rat) else 0) accs) = c"
proof (induction accs)
  case Nil
  then show ?case by simp
next
  case (Cons a accs)
  show ?case
  proof (cases "k = acc_id a")
    case True
    with Cons.prems have "k \<notin> acc_id ` set accs" by auto
    then have "sum_list (map (\<lambda>a. if k = acc_id a then c else 0) accs) = 0"
      by (induction accs) auto
    with True show ?thesis by simp
  next
    case False
    with Cons show ?thesis by auto
  qed
qed

lemma sum_balanceOf_accounts:
  "distinct (map acc_id accs) \<Longrightarrow> \<forall>l \<in> set ls. accountId l \<in> acc_id ` set accs \<Longrightarrow>
     sum_list (map (\<lambda>a. balanceOf (acc_id a) ls) accs) = sum_list (map (\<lambda>l. debit l - credit l) ls)"
proof (induction ls)
  case Nil
  then show ?case by (simp add: balanceOf_def)
next
  case (Cons l ls)
  have "sum_list (map (\<lambda>a. balanceOf (acc_id a) (l # ls)) accs) =
          sum_list (map (\<lambda>a. if accountId l = acc_id a then debit l - credit l else 0) accs)
          + sum_list (map (\<lambda>a. balanceOf (acc_id a) ls) accs)"
    by (simp add: balanceOf_Cons sum_list_addf)
  also have "sum_list (map (\<lambda>a. if accountId l = acc_id a then debit l - credit l else 0) accs)
          = debit l - credit l"
    using Cons.prems by (intro sum_single_match) auto
  also have "sum_list (map (\<lambda>a. balanceOf (acc_id a) ls) accs)
          = sum_list (map (\<lambda>l. debit l - credit l) ls)"
    using Cons by auto
  finally show ?case by simp
qed

lemma balanced_lines_sum:
  "\<forall>e \<in> set es. entryBalanced e \<Longrightarrow> sum_list (map (\<lambda>l. debit l - credit l) (allLines es)) = 0"
proof (induction es)
  case Nil
  then show ?case by (simp add: allLines_def)
next
  case (Cons e es)
  then have "sum_list (map (\<lambda>l. debit l - credit l) (lines e)) = 0"
    by (simp add: entryBalanced_def sum_list_subtractf)
  with Cons show ?case by (simp add: allLines_def)
qed

lemma max_diff: "max (b::rat) 0 - max (- b) 0 = b"
  by (simp add: max_def)

lemma sample_eval:
  "inRange ''2024-01-01'' ''2024-12-31'' sale"
  "entryBalanced sale"
  "allLines [sale] = lines sale"
  "inRange ''2024-01-01'' ''2024-12-31'' oneLegged"
  "allLines [oneLegged] = lines oneLegged"
  by (simp_all add: inRange_def sale_def oneLegged_def entryBalanced_def allLines_def)

section \<open>Trial balance lines\<close>

text \<open>
  C10. Every line of the trial balance built by \<open>buildReports\<close> has a debit and a credit
  that are not negative, and at least one of the two is 0.
\<close>

theorem trialBalance_line_signs:
  "\<forall>l \<in> set (tb_lines (trialBalance (buildReports es accs f t))).
     tb_debit l \<ge> 0 \<and> tb_credit l \<ge> 0 \<and> (tb_debit l = 0 \<or> tb_credit l = 0)"
  by (auto simp: buildReports_def Let_def trialBalanceLine_def)

theorem trialBalance_line_signs_witness:
  "map (\<lambda>l. (tb_debit l, tb_credit l))
     (tb_lines (trialBalance (buildReports [sale] [cash, sales] ''2024-01-01'' ''2024-12-31'')))
     = [(100, 0), (0, 100)]
   \<and> list_all (\<lambda>l. tb_debit l \<ge> 0 \<and> tb_credit l \<ge> 0 \<and> (tb_debit l = 0 \<or> tb_credit l = 0))
       (tb_lines (trialBalance (buildReports [sale] [cash, sales] ''2024-01-01'' ''2024-12-31'')))"
proof
  show "map (\<lambda>l. (tb_debit l, tb_credit l))
     (tb_lines (trialBalance (buildReports [sale] [cash, sales] ''2024-01-01'' ''2024-12-31'')))
     = [(100, 0), (0, 100)]"
    by (simp add: buildReports_def Let_def trialBalanceLine_def inRange_def sale_def cash_def
        sales_def getOr0_computeAccountBalances allLines_def balanceOf_def)
next
  show "list_all (\<lambda>l. tb_debit l \<ge> 0 \<and> tb_credit l \<ge> 0 \<and> (tb_debit l = 0 \<or> tb_credit l = 0))
       (tb_lines (trialBalance (buildReports [sale] [cash, sales] ''2024-01-01'' ''2024-12-31'')))"
    unfolding list_all_iff by (rule trialBalance_line_signs)
qed

section \<open>Profit and loss, balance sheet\<close>

lemma pnl_lists:
  "pnl_revenueAccounts (pnl (buildReports es accs f t)) =
     map (\<lambda>a. \<lparr> aa_account = a, amount = - periodBalance es f t (acc_id a) \<rparr>)
       (filter (\<lambda>a. acc_type a = Revenue) accs)"
  "pnl_expenseAccounts (pnl (buildReports es accs f t)) =
     map (\<lambda>a. \<lparr> aa_account = a, amount = periodBalance es f t (acc_id a) \<rparr>)
       (filter (\<lambda>a. acc_type a = Expense) accs)"
  by (simp_all add: buildReports_def Let_def getOr0_period)

lemma pnl_totals:
  "revenueTotal (pnl (buildReports es accs f t)) =
     sum_list (map amount (pnl_revenueAccounts (pnl (buildReports es accs f t))))"
  "expenseTotal (pnl (buildReports es accs f t)) =
     sum_list (map amount (pnl_expenseAccounts (pnl (buildReports es accs f t))))"
  "grossProfit (pnl (buildReports es accs f t)) =
     revenueTotal (pnl (buildReports es accs f t)) - expenseTotal (pnl (buildReports es accs f t))"
  "netProfit (pnl (buildReports es accs f t)) =
     revenueTotal (pnl (buildReports es accs f t)) - expenseTotal (pnl (buildReports es accs f t))"
  by (simp_all add: buildReports_def Let_def sumAmounts_sum_list)

lemma bs_lists:
  "assets (balanceSheet (buildReports es accs f t)) =
     map (\<lambda>a. \<lparr> aa_account = a, amount = periodBalance es f t (acc_id a) \<rparr>)
       (filter (\<lambda>a. acc_type a = Asset) accs)"
  "liabilities (balanceSheet (buildReports es accs f t)) =
     map (\<lambda>a. \<lparr> aa_account = a, amount = - periodBalance es f t (acc_id a) \<rparr>)
       (filter (\<lambda>a. acc_type a = Liability) accs)"
  "equity (balanceSheet (buildReports es accs f t)) =
     map (\<lambda>a. \<lparr> aa_account = a, amount = - periodBalance es f t (acc_id a) \<rparr>)
       (filter (\<lambda>a. acc_type a = Equity) accs)"
  by (simp_all add: buildReports_def Let_def getOr0_period)

lemma bs_totals:
  "assetTotal (totals (balanceSheet (buildReports es accs f t))) =
     sum_list (map amount (assets (balanceSheet (buildReports es accs f t))))"
  "liabilityTotal (totals (balanceSheet (buildReports es accs f t))) =
     sum_list (map amount (liabilities (balanceSheet (buildReports es accs f t))))"
  "equityTotal (totals (balanceSheet (buildReports es accs f t))) =
     sum_list (map amount (equity (balanceSheet (buildReports es accs f t))))"
  by (simp_all add: buildReports_def Let_def sumAmounts_sum_list)

lemma two_line_balance:
  assumes "map (\<lambda>l. (accountId l, debit l, credit l)) ls = [(ka, 100, 0), (kr, 0, 100)]"
    and "kr \<noteq> ka"
  shows "balanceOf ka ls = 100" and "balanceOf kr ls = - 100"
proof -
  from assms(1) obtain l1 l2 where ls: "ls = [l1, l2]"
    and l1: "accountId l1 = ka" "debit l1 = 100" "credit l1 = 0"
    and l2: "accountId l2 = kr" "debit l2 = 0" "credit l2 = 100"
    by auto
  show "balanceOf ka ls = 100" using assms(2) by (simp add: ls l1 l2 balanceOf_def)
  show "balanceOf kr ls = - 100" using assms(2) by (simp add: ls l1 l2 balanceOf_def)
qed

text \<open>
  C3. In the profit and loss report built by \<open>buildReports\<close>, every Revenue account of
  the list contributes the negation of its balance over the period and every Expense
  account its balance; the two totals are the sums of those amounts, and gross profit and
  net profit are both revenue total minus expense total. In particular, for a single entry
  of the period that debits an Asset account 100 and credits a Revenue account 100, with
  these two accounts as the list, the revenue total is 100, the asset total of the balance
  sheet is 100 and the net profit is 100.
\<close>

theorem profitAndLoss_amounts:
  "pnl_revenueAccounts (pnl (buildReports es accs f t)) =
     map (\<lambda>a. \<lparr> aa_account = a, amount = - periodBalance es f t (acc_id a) \<rparr>)
       (filter (\<lambda>a. acc_type a = Revenue) accs)
   \<and> pnl_expenseAccounts (pnl (buildReports es accs f t)) =
     map (\<lambda>a. \<lparr> aa_account = a, amount = periodBalance es f t (acc_id a) \<rparr>)
       (filter (\<lambda>a. acc_type a = Expense) accs)
   \<and> revenueTotal (pnl (buildReports es accs f t)) =
     sum_list (map amount (pnl_revenueAccounts (pnl (buildReports es accs f t))))
   \<and> expenseTotal (pnl (buildReports es accs f t)) =
     sum_list (map amount (pnl_expenseAccounts (pnl (buildReports es accs f t))))
   \<and> grossProfit (pnl (buildReports es accs f t)) =
     revenueTotal (pnl (buildReports es accs f t)) - expenseTotal (pnl (buildReports es accs f t))
   \<and> netProfit (pnl (buildReports es accs f t)) =
     revenueTotal (pnl (buildReports es accs f t)) - expenseTotal (pnl (buildReports es accs f t))
   \<and> (acc_type R = Revenue \<and> acc_type A = Asset \<and> acc_id R \<noteq> acc_id A \<and> inRange f t e
      \<and> map (\<lambda>l. (accountId l, debit l, credit l)) (lines e)
          = [(acc_id A, 100, 0), (acc_id R, 0, 100)]
      \<longrightarrow> revenueTotal (pnl (buildReports [e] [A, R] f t)) = 100
        \<and> assetTotal (totals (balanceSheet (buildReports [e] [A, R] f t))) = 100
        \<and> netProfit (pnl (buildReports [e] [A, R] f t)) = 100)"
proof (intro conjI impI)
  assume h: "acc_type R = Revenue \<and> acc_type A = Asset \<and> acc_id R \<noteq> acc_id A \<and> inRange f t e
      \<and> map (\<lambda>l. (accountId l, debit l, credit l)) (lines e)
          = [(acc_id A, 100, 0), (acc_id R, 0, 100)]"
  then have b: "periodBalance [e] f t (acc_id A) = 100" "periodBalance [e] f t (acc_id R) = - 100"
    using two_line_balance [of "lines e" "acc_id A" "acc_id R"]
    by (simp_all add: periodBalance_def allLines_def)
  show "revenueTotal (pnl (buildReports [e] [A, R] f t)) = 100"
    using h by (simp add: pnl_totals pnl_lists b)
  show "assetTotal (totals (balanceSheet (buildReports [e] [A, R] f t))) = 100"
    using h by (simp add: bs_totals bs_lists b)
  show "netProfit (pnl (buildReports [e] [A, R] f t)) = 100"
    using h by (simp add: pnl_totals pnl_lists b)
qed (rule pnl_lists pnl_totals)+

theorem profitAndLoss_amounts_witness:
  "revenueTotal (pnl (buildReports [sale] [cash, sales] ''2024-01-01'' ''2024-12-31'')) = 100
   \<and> assetTotal (totals (balanceSheet (buildReports [sale] [cash, sales] ''2024-01-01'' ''2024-12-31''))) = 100
   \<and> netProfit (pnl (buildReports [sale] [cash, sales] ''2024-01-01'' ''2024-12-31'')) = 100
   \<and> map amount (pnl_revenueAccounts (pnl (buildReports [sale] [cash, sales] ''2024-01-01'' ''2024-12-31''))) = [100]"
proof -
  have h: "acc_type sales = Revenue \<and> acc_type cash = Asset \<and> acc_id sales \<noteq> acc_id cash
      \<and> inRange ''2024-01-01'' ''2024-12-31'' sale
      \<and> map (\<lambda>l. (accountId l, debit l, credit l)) (lines sale)
          = [(acc_id cash, 100, 0), (acc_id sales, 0, 100)]"
    by (simp add: sample_eval) (simp add: sale_def cash_def sales_def)
  have "periodBalance [sale] ''2024-01-01'' ''2024-12-31'' ''sales'' = - 100"
    by (simp add: periodBalance_def sample_eval) (simp add: balanceOf_def sale_def)
  then show ?thesis
    using h profitAndLoss_amounts [of "[sale]" "[cash, sales]" "''2024-01-01''" "''2024-12-31''"
        sales cash sale]
    by (simp add: cash_def sales_def)
qed

text \<open>
  C5. In the balance sheet built by \<open>buildReports\<close>, every Asset account of the list has
  its balance over the period as amount, every Liability and every Equity account the
  negation of its balance, and each of the three totals is the sum of the amounts of its
  section.
\<close>

theorem balanceSheet_amounts:
  "assets (balanceSheet (buildReports es accs f t)) =
     map (\<lambda>a. \<lparr> aa_account = a, amount = periodBalance es f t (acc_id a) \<rparr>)
       (filter (\<lambda>a. acc_type a = Asset) accs)
   \<and> liabilities (balanceSheet (buildReports es accs f t)) =
     map (\<lambda>a. \<lparr> aa_account = a, amount = - periodBalance es f t (acc_id a) \<rparr>)
       (filter (\<lambda>a. acc_type a = Liability) accs)
   \<and> equity (balanceSheet (buildReports es accs f t)) =
     map (\<lambda>a. \<lparr> aa_account = a, amount = - periodBalance es f t (acc_id a) \<rparr>)
       (filter (\<lambda>a. acc_type a = Equity) accs)
   \<and> assetTotal (totals (balanceSheet (buildReports es accs f t))) =
     sum_list (map amount (assets (balanceSheet (buildReports es accs f t))))
   \<and> liabilityTotal (totals (balanceSheet (buildReports es accs f t))) =
     sum_list (map amount (liabilities (balanceSheet (buildReports es accs f t))))
   \<and> equityTotal (totals (balanceSheet (buildReports es accs f t))) =
     sum_list (map amount (equity (balanceSheet (buildReports es accs f t))))"
  by (intro conjI) (rule bs_lists bs_totals)+

section \<open>Lines on an account that is no longer in the list\<close>

lemma buildReports_cong:
  assumes "\<forall>a \<in> set accs. getOr0 (computeAccountBalances (filter (inRange f t) es)) (acc_id a)
                        = getOr0 (computeAccountBalances (filter (inRange f t) es')) (acc_id a)"
  shows "buildReports es accs f t = buildReports es' accs f t"
proof -
  let ?B = "computeAccountBalances (filter (inRange f t) es)"
  let ?B' = "computeAccountBalances (filter (inRange f t) es')"
  from assms have eq: "\<And>a. a \<in> set accs \<Longrightarrow> getOr0 ?B (acc_id a) = getOr0 ?B' (acc_id a)"
    by blast
  have tb: "map (trialBalanceLine ?B) accs = map (trialBalanceLine ?B') accs"
    by (rule map_cong) (simp_all add: trialBalanceLine_def eq)
  have neg: "map (\<lambda>account. \<lparr> aa_account = account, amount = - getOr0 ?B (acc_id account) \<rparr>)
               (filter P accs)
           = map (\<lambda>account. \<lparr> aa_account = account, amount = - getOr0 ?B' (acc_id account) \<rparr>)
               (filter P accs)" for P
    by (rule map_cong) (simp_all add: eq)
  have pos: "map (\<lambda>account. \<lparr> aa_account = account, amount = getOr0 ?B (acc_id account) \<rparr>)
               (filter P accs)
           = map (\<lambda>account. \<lparr> aa_account = account, amount = getOr0 ?B' (acc_id account) \<rparr>)
               (filter P accs)" for P
    by (rule map_cong) (simp_all add: eq)
  show ?thesis
    unfolding buildReports_def Let_def by (simp only: tb neg pos)
qed

lemma inRange_withoutAccount:
  "filter (inRange f t) (withoutAccount k es) = withoutAccount k (filter (inRange f t) es)"
  by (induction es) (simp_all add: withoutAccount_def inRange_def)

lemma allLines_withoutAccount:
  "allLines (withoutAccount k es) = filter (\<lambda>l. accountId l \<noteq> k) (allLines es)"
  by (induction es) (simp_all add: withoutAccount_def allLines_def)

lemma balanceOf_without:
  "k' \<noteq> k \<Longrightarrow> balanceOf k' (filter (\<lambda>l. accountId l \<noteq> k) ls) = balanceOf k' ls"
proof -
  assume "k' \<noteq> k"
  then have "filter (\<lambda>l. accountId l = k') (filter (\<lambda>l. accountId l \<noteq> k) ls)
               = filter (\<lambda>l. accountId l = k') ls"
    by (auto intro: filter_cong)
  then show ?thesis by (simp add: balanceOf_def)
qed

lemma periodBalance_withoutAccount:
  "k' \<noteq> k \<Longrightarrow> periodBalance (withoutAccount k es) f t k' = periodBalance es f t k'"
  by (simp add: periodBalance_def inRange_withoutAccount allLines_withoutAccount balanceOf_without)

lemma reports_without_orphan:
  assumes "k \<notin> acc_id ` set accs"
  shows "buildReports (withoutAccount k es) accs f t = buildReports es accs f t"
proof (rule buildReports_cong, rule ballI)
  fix a assume "a \<in> set accs"
  with assms have "acc_id a \<noteq> k" by auto
  then show "getOr0 (computeAccountBalances (filter (inRange f t) (withoutAccount k es))) (acc_id a)
           = getOr0 (computeAccountBalances (filter (inRange f t) es)) (acc_id a)"
    by (simp add: getOr0_period periodBalance_withoutAccount)
qed

lemma find_None_label: "k \<notin> acc_id ` set accs \<Longrightarrow> accountId l = k \<Longrightarrow> accountLabel accs l = ''Account removed''"
proof -
  assume "k \<notin> acc_id ` set accs" "accountId l = k"
  then have "find (\<lambda>acc. acc_id acc = accountId l) accs = None"
    unfolding find_None_iff by (metis image_eqI)
  then show ?thesis by (simp add: accountLabel_def)
qed

lemma report_line_ids:
  "(acc_id \<circ> aa_account) ` set (pnl_revenueAccounts (pnl (buildReports es accs f t))) \<subseteq> acc_id ` set accs"
  "(acc_id \<circ> aa_account) ` set (pnl_expenseAccounts (pnl (buildReports es accs f t))) \<subseteq> acc_id ` set accs"
  "(acc_id \<circ> aa_account) ` set (assets (balanceSheet (buildReports es accs f t))) \<subseteq> acc_id ` set accs"
  "(acc_id \<circ> aa_account) ` set (liabilities (balanceSheet (buildReports es accs f t))) \<subseteq> acc_id ` set accs"
  "(acc_id \<circ> aa_account) ` set (equity (balanceSheet (buildReports es accs f t))) \<subseteq> acc_id ` set accs"
  "(acc_id \<circ> tb_account) ` set (tb_lines (trialBalance (buildReports es accs f t))) \<subseteq> acc_id ` set accs"
  by (auto simp: pnl_lists bs_lists tb_lines_buildReports)

lemma journal_view_all:
  "length (trim s) = 0 \<Longrightarrow> journalFilteredEntries lc trim es accs s [] [] = es"
  by (simp add: journalFilteredEntries_def)

lemma journal_view_reference:
  "e \<in> set es \<Longrightarrow> str_includes (lc (reference e)) (lc s) \<Longrightarrow>
   (from = [] \<or> from \<le> date e) \<Longrightarrow> (to = [] \<or> date e \<le> to) \<Longrightarrow>
   e \<in> set (journalFilteredEntries lc trim es accs s from to)"
  by (simp add: journalFilteredEntries_def)

text \<open>
  C7. Let \<open>k\<close> be an account id that is not in the account list. The functions below are
  total, so the reports are derived whatever the entries reference. The balance aggregator
  still binds \<open>k\<close> to the sum of \<open>debit - credit\<close> over the lines of the period that
  reference it. No line of the profit and loss report, of the balance sheet or of the trial
  balance is for \<open>k\<close>, and the reports are the ones the entries give with every line on
  \<open>k\<close> taken out. The journal view still lists the entries with all their lines: all of
  them when the search term is blank and no dates are set, and any entry whose reference
  matches the search term and whose date passes the date filter; a line on \<open>k\<close> is
  labelled \<open>Account removed\<close>.
\<close>

theorem orphaned_account:
  "k \<notin> acc_id ` set accs \<longrightarrow>
     computeAccountBalances (filter (inRange f t) es) k
       = (if k \<in> accountId ` set (allLines (filter (inRange f t) es))
          then Some (periodBalance es f t k) else None)
   \<and> k \<notin> (acc_id \<circ> aa_account) ` set (pnl_revenueAccounts (pnl (buildReports es accs f t)))
   \<and> k \<notin> (acc_id \<circ> aa_account) ` set (pnl_expenseAccounts (pnl (buildReports es accs f t)))
   \<and> k \<notin> (acc_id \<circ> aa_account) ` set (assets (balanceSheet (buildReports es accs f t)))
   \<and> k \<notin> (acc_id \<circ> aa_account) ` set (liabilities (balanceSheet (buildReports es accs f t)))
   \<and> k \<notin> (acc_id \<circ> aa_account) ` set (equity (balanceSheet (buildReports es accs f t)))
   \<and> k \<notin> (acc_id \<circ> tb_account) ` set (tb_lines (trialBalance (buildReports es accs f t)))
   \<and> buildReports (withoutAccount k es) accs f t = buildReports es accs f t
   \<and> (length (trim s) = 0 \<longrightarrow> journalFilteredEntries lc trim es accs s [] [] = es)
   \<and> (e \<in> set es \<and> str_includes (lc (reference e)) (lc s)
        \<and> (from = [] \<or> from \<le> date e) \<and> (to = [] \<or> date e \<le> to)
      \<longrightarrow> e \<in> set (journalFilteredEntries lc trim es accs s from to))
   \<and> (accountId l = k \<longrightarrow> accountLabel accs l = ''Account removed'')"
proof (intro impI conjI)
  assume k: "k \<notin> acc_id ` set accs"
  show "computeAccountBalances (filter (inRange f t) es) k
       = (if k \<in> accountId ` set (allLines (filter (inRange f t) es))
          then Some (periodBalance es f t k) else None)"
    by (simp add: computeAccountBalances_apply periodBalance_def)
  show "k \<notin> (acc_id \<circ> aa_account) ` set (pnl_revenueAccounts (pnl (buildReports es accs f t)))"
    using k report_line_ids(1) by blast
  show "k \<notin> (acc_id \<circ> aa_account) ` set (pnl_expenseAccounts (pnl (buildReports es accs f t)))"
    using k report_line_ids(2) by blast
  show "k \<notin> (acc_id \<circ> aa_account) ` set (assets (balanceSheet (buildReports es accs f t)))"
    using k report_line_ids(3) by blast
  show "k \<notin> (acc_id \<circ> aa_account) ` set (liabilities (balanceSheet (buildReports es accs f t)))"
    using k report_line_ids(4) by blast
  show "k \<notin> (acc_id \<circ> aa_account) ` set (equity (balanceSheet (buildReports es accs f t)))"
    using k report_line_ids(5) by blast
  show "k \<notin> (acc_id \<circ> tb_account) ` set (tb_lines (trialBalance (buildReports es accs f t)))"
    using k report_line_ids(6) by blast
  show "buildReports (withoutAccount k es) accs f t = buildReports es accs f t"
    using k by (rule reports_without_orphan)
  show "journalFilteredEntries lc trim es accs s [] [] = es" if "length (trim s) = 0"
    using that by (rule journal_view_all)
  show "e \<in> set (journalFilteredEntries lc trim es accs s from to)"
    if "e \<in> set es \<and> str_includes (lc (reference e)) (lc s)
        \<and> (from = [] \<or> from \<le> date e) \<and> (to = [] \<or> date e \<le> to)"
    using that by (intro journal_view_reference) auto
  show "accountLabel accs l = ''Account removed''" if "accountId l = k"
    using k that by (rule find_None_label)
qed

theorem orphaned_account_witness:
  "computeAccountBalances (filter (inRange ''2024-01-01'' ''2024-12-31'') [sale]) ''sales'' = Some (- 100)
   \<and> map (acc_id \<circ> tb_account)
        (tb_lines (trialBalance (buildReports [sale] [cash] ''2024-01-01'' ''2024-12-31''))) = [''cash'']
   \<and> buildReports (withoutAccount ''sales'' [sale]) [cash] ''2024-01-01'' ''2024-12-31''
        = buildReports [sale] [cash] ''2024-01-01'' ''2024-12-31''
   \<and> sale \<in> set (journalFilteredEntries id id [sale] [cash] ''INV'' [] [])
   \<and> map (accountLabel [cash]) (lines sale) = [''Cash'', ''Account removed'']"
proof -
  let ?l = "\<lparr> line_id = ''l2'', accountId = ''sales'', description = None, debit = 0, credit = 100 \<rparr>"
  have k: "''sales'' \<notin> acc_id ` set [cash]"
    by (simp add: cash_def)
  note T = orphaned_account [of "''sales''" "[cash]" "''2024-01-01''" "''2024-12-31''" "[sale]"
      id "''INV''" id sale "[]" "[]" ?l, THEN mp, OF k]
  from T have "computeAccountBalances (filter (inRange ''2024-01-01'' ''2024-12-31'') [sale]) ''sales''
       = (if ''sales'' \<in> accountId ` set (allLines (filter (inRange ''2024-01-01'' ''2024-12-31'') [sale]))
          then Some (periodBalance [sale] ''2024-01-01'' ''2024-12-31'' ''sales'') else None)"
    by (elim conjE) assumption
  then have c1: "computeAccountBalances (filter (inRange ''2024-01-01'' ''2024-12-31'') [sale]) ''sales''
       = Some (- 100)"
    by (simp add: periodBalance_def sample_eval) (simp add: sale_def balanceOf_def)
  have c2: "map (acc_id \<circ> tb_account)
        (tb_lines (trialBalance (buildReports [sale] [cash] ''2024-01-01'' ''2024-12-31''))) = [''cash'']"
    by (simp add: tb_lines_buildReports cash_def)
  from T have c3: "buildReports (withoutAccount ''sales'' [sale]) [cash] ''2024-01-01'' ''2024-12-31''
        = buildReports [sale] [cash] ''2024-01-01'' ''2024-12-31''"
    by (elim conjE) assumption
  from T have "sale \<in> set [sale] \<and> str_includes (id (reference sale)) (id ''INV'')
        \<and> (([]::string) = [] \<or> [] \<le> date sale) \<and> (([]::string) = [] \<or> date sale \<le> [])
      \<longrightarrow> sale \<in> set (journalFilteredEntries id id [sale] [cash] ''INV'' [] [])"
    by (elim conjE) assumption
  moreover have "str_includes (id (reference sale)) (id ''INV'')"
    by (simp add: sale_def)
  ultimately have c4: "sale \<in> set (journalFilteredEntries id id [sale] [cash] ''INV'' [] [])"
    by simp
  from T have "accountId ?l = ''sales'' \<longrightarrow> accountLabel [cash] ?l = ''Account removed''"
    by (elim conjE) assumption
  then have c5: "map (accountLabel [cash]) (lines sale) = [''Cash'', ''Account removed'']"
    by (simp add: sale_def) (simp add: accountLabel_def cash_def)
  from c1 c2 c3 c4 c5 show ?thesis by blast
qed

section \<open>Invoice totals\<close>

lemma spec_zero_quantity:
  "spec_taxable 0 p d = 0" "spec_discountAmount 0 p d = 0" "spec_taxAmount 0 p d t = 0"
  by (simp_all add: spec_taxable_def spec_discountAmount_def spec_taxAmount_def spec_base_def)

lemma totalsStep_parsed:
  assumes "lineQuantity pf l = Some q" "lineRate pf items l = Some p"
    "lineDiscount pf l = Some d" "lineTaxRate pf l = Some t"
  shows "totalsStep pf items (Some a, Some b, Some c) l =
     (Some (a + spec_taxable q p d), Some (b + spec_discountAmount q p d),
      Some (c + spec_taxAmount q p d t))"
proof (cases "q = 0")
  case True
  then show ?thesis
    using assms by (simp add: totalsStep_def Let_def falsy_def spec_zero_quantity)
next
  case False
  then show ?thesis
    using assms
    by (simp add: totalsStep_def Let_def falsy_def nmul_def nadd_def nsub_def percent_def
        spec_taxable_def spec_discountAmount_def spec_taxAmount_def spec_base_def)
qed

lemma foldl_totalsStep:
  "map (\<lambda>l. (lineQuantity pf l, lineRate pf items l, lineDiscount pf l, lineTaxRate pf l)) ls
     = map (\<lambda>(q, p, d, t). (Some q, Some p, Some d, Some t)) vs \<Longrightarrow>
   foldl (totalsStep pf items) (Some a, Some b, Some c) ls =
     (Some (a + sum_list (map (\<lambda>(q, p, d, t). spec_taxable q p d) vs)),
      Some (b + sum_list (map (\<lambda>(q, p, d, t). spec_discountAmount q p d) vs)),
      Some (c + sum_list (map (\<lambda>(q, p, d, t). spec_taxAmount q p d t) vs)))"
proof (induction ls arbitrary: vs a b c)
  case Nil
  then show ?case by simp
next
  case (Cons l ls)
  from Cons.prems obtain v vs' where vs: "vs = v # vs'"
    by (cases vs) auto
  obtain q p d t where v: "v = (q, p, d, t)"
    by (cases v) auto
  from Cons.prems have l: "lineQuantity pf l = Some q" "lineRate pf items l = Some p"
      "lineDiscount pf l = Some d" "lineTaxRate pf l = Some t"
    and rest: "map (\<lambda>l. (lineQuantity pf l, lineRate pf items l, lineDiscount pf l, lineTaxRate pf l)) ls
     = map (\<lambda>(q, p, d, t). (Some q, Some p, Some d, Some t)) vs'"
    by (simp_all add: vs v)
  show ?case
    by (simp add: vs v totalsStep_parsed [OF l] Cons.IH [OF rest] add.assoc)
qed

lemma calculateLineTotal_spec:
  "calculateLineTotal (Some q) (Some p) (Some d) (Some t) = Some (spec_lineTotal q p d t)"
  by (simp add: calculateLineTotal_def Let_def nmul_def nadd_def nsub_def percent_def
      spec_lineTotal_def spec_taxable_def spec_discountAmount_def spec_taxAmount_def spec_base_def)

lemma computeTotals_fields:
  "subtotal (computeTotals pf ls items) = fst (foldl (totalsStep pf items) (Some 0, Some 0, Some 0) ls)"
  "discountTotal (computeTotals pf ls items) = fst (snd (foldl (totalsStep pf items) (Some 0, Some 0, Some 0) ls))"
  "taxTotal (computeTotals pf ls items) = snd (snd (foldl (totalsStep pf items) (Some 0, Some 0, Some 0) ls))"
  "invoiceTotal (computeTotals pf ls items) = nadd (subtotal (computeTotals pf ls items)) (taxTotal (computeTotals pf ls items))"
  by (simp_all add: computeTotals_def Let_def)

lemma same_lines:
  assumes "pf ''2'' = Some 2" "pf ''50'' = Some 50" "pf ''10'' = Some 10" "pf ''18'' = Some 18"
    and "\<forall>l \<in> set ls. dl_quantity l = ''2'' \<and> dl_unitPrice l = ''50''
                       \<and> dl_discount l = ''10'' \<and> dl_taxRate l = ''18''"
  shows "map (\<lambda>l. (lineQuantity pf l, lineRate pf items l, lineDiscount pf l, lineTaxRate pf l)) ls
     = map (\<lambda>(q, p, d, t). (Some q, Some p, Some d, Some t)) (replicate (length ls) (2, 50, 10, 18))"
  using assms(5)
  by (induction ls)
     (simp_all add: lineQuantity_def lineRate_def lineDiscount_def lineTaxRate_def orZero_def assms(1-4))

text \<open>
  C6. On numbers \<open>q\<close>, \<open>p\<close>, \<open>d\<close>, \<open>t\<close> (quantity, unit price, discount and
  tax rate in per cent), \<open>calculateLineTotal\<close> returns taxable plus tax amount, where
  base is \<open>q * p\<close>, discount amount is \<open>base * d / 100\<close>, taxable is base minus discount
  amount and tax amount is \<open>taxable * t / 100\<close>. The total of \<open>computeTotals\<close> is its
  subtotal plus its tax total. When the four values the loop reads for every draft line are
  numbers, the subtotal is the sum of the taxable amounts of the lines, the discount total
  the sum of their discount amounts and the tax total the sum of their tax amounts. For
  quantity 2, unit price 50, discount 10 and tax rate 18 the base is 100, the discount amount
  10, the taxable amount 90, the tax amount 16.2 and the line total 106.2; \<open>n\<close> such lines
  give subtotal \<open>90 n\<close>, discount total \<open>10 n\<close>, tax total \<open>16.2 n\<close> and total
  \<open>106.2 n\<close>.
\<close>

theorem invoice_totals:
  "calculateLineTotal (Some q) (Some p) (Some d) (Some t) = Some (spec_lineTotal q p d t)
   \<and> invoiceTotal (computeTotals pf ls items)
       = nadd (subtotal (computeTotals pf ls items)) (taxTotal (computeTotals pf ls items))
   \<and> (map (\<lambda>l. (lineQuantity pf l, lineRate pf items l, lineDiscount pf l, lineTaxRate pf l)) ls
         = map (\<lambda>(q, p, d, t). (Some q, Some p, Some d, Some t)) vs
      \<longrightarrow> subtotal (computeTotals pf ls items)
            = Some (sum_list (map (\<lambda>(q, p, d, t). spec_taxable q p d) vs))
        \<and> discountTotal (computeTotals pf ls items)
            = Some (sum_list (map (\<lambda>(q, p, d, t). spec_discountAmount q p d) vs))
        \<and> taxTotal (computeTotals pf ls items)
            = Some (sum_list (map (\<lambda>(q, p, d, t). spec_taxAmount q p d t) vs))
        \<and> invoiceTotal (computeTotals pf ls items)
            = Some (sum_list (map (\<lambda>(q, p, d, t). spec_taxable q p d) vs)
                    + sum_list (map (\<lambda>(q, p, d, t). spec_taxAmount q p d t) vs)))
   \<and> spec_base 2 50 = 100 \<and> spec_discountAmount 2 50 10 = 10 \<and> spec_taxable 2 50 10 = 90
   \<and> spec_taxAmount 2 50 10 18 = 81 / 5 \<and> spec_lineTotal 2 50 10 18 = 531 / 5
   \<and> calculateLineTotal (Some 2) (Some 50) (Some 10) (Some 18) = Some (531 / 5)
   \<and> (pf ''2'' = Some 2 \<and> pf ''50'' = Some 50 \<and> pf ''10'' = Some 10 \<and> pf ''18'' = Some 18
      \<and> (\<forall>l \<in> set ls'. dl_quantity l = ''2'' \<and> dl_unitPrice l = ''50''
                        \<and> dl_discount l = ''10'' \<and> dl_taxRate l = ''18'')
      \<longrightarrow> subtotal (computeTotals pf ls' items) = Some (of_nat (length ls') * 90)
        \<and> discountTotal (computeTotals pf ls' items) = Some (of_nat (length ls') * 10)
        \<and> taxTotal (computeTotals pf ls' items) = Some (of_nat (length ls') * (81 / 5))
        \<and> invoiceTotal (computeTotals pf ls' items) = Some (of_nat (length ls') * (531 / 5)))"
proof -
  have ex: "spec_base 2 50 = 100" "spec_discountAmount 2 50 10 = 10" "spec_taxable 2 50 10 = 90"
    "spec_taxAmount 2 50 10 18 = 81 / 5" "spec_lineTotal 2 50 10 18 = 531 / 5"
    by (simp_all add: spec_lineTotal_def spec_taxable_def spec_discountAmount_def
        spec_taxAmount_def spec_base_def)
  have gen: "subtotal (computeTotals pf ls items)
            = Some (sum_list (map (\<lambda>(q, p, d, t). spec_taxable q p d) vs))
        \<and> discountTotal (computeTotals pf ls items)
            = Some (sum_list (map (\<lambda>(q, p, d, t). spec_discountAmount q p d) vs))
        \<and> taxTotal (computeTotals pf ls items)
            = Some (sum_list (map (\<lambda>(q, p, d, t). spec_taxAmount q p d t) vs))
        \<and> invoiceTotal (computeTotals pf ls items)
            = Some (sum_list (map (\<lambda>(q, p, d, t). spec_taxable q p d) vs)
                    + sum_list (map (\<lambda>(q, p, d, t). spec_taxAmount q p d t) vs))"
    if "map (\<lambda>l. (lineQuantity pf l, lineRate pf items l, lineDiscount pf l, lineTaxRate pf l)) ls
         = map (\<lambda>(q, p, d, t). (Some q, Some p, Some d, Some t)) vs" for ls vs
    by (simp add: computeTotals_fields foldl_totalsStep [OF that] nadd_def)
  have same: "subtotal (computeTotals pf ls' items) = Some (of_nat (length ls') * 90)
        \<and> discountTotal (computeTotals pf ls' items) = Some (of_nat (length ls') * 10)
        \<and> taxTotal (computeTotals pf ls' items) = Some (of_nat (length ls') * (81 / 5))
        \<and> invoiceTotal (computeTotals pf ls' items) = Some (of_nat (length ls') * (531 / 5))"
    if h: "pf ''2'' = Some 2 \<and> pf ''50'' = Some 50 \<and> pf ''10'' = Some 10 \<and> pf ''18'' = Some 18
      \<and> (\<forall>l \<in> set ls'. dl_quantity l = ''2'' \<and> dl_unitPrice l = ''50''
                        \<and> dl_discount l = ''10'' \<and> dl_taxRate l = ''18'')"
  proof -
    have "map (\<lambda>l. (lineQuantity pf l, lineRate pf items l, lineDiscount pf l, lineTaxRate pf l)) ls'
     = map (\<lambda>(q, p, d, t). (Some q, Some p, Some d, Some t)) (replicate (length ls') (2, 50, 10, 18))"
      using h by (intro same_lines) simp_all
    from gen [OF this] show ?thesis
      by (simp add: sum_list_replicate ex algebra_simps)
  qed
  show ?thesis
    using gen same ex calculateLineTotal_spec [of q p d t] calculateLineTotal_spec [of 2 50 10 18]
      computeTotals_fields(4) [of pf ls items]
    by (intro conjI impI) simp_all
qed

lemma parseDigits_sample:
  "parseDigits ''2'' = Some 2" "parseDigits ''50'' = Some 50"
  "parseDigits ''10'' = Some 10" "parseDigits ''18'' = Some 18"
  by (simp_all add: parseDigits_def isDigit_def)

theorem invoice_totals_witness:
  "subtotal (computeTotals parseDigits [widgetLine, widgetLine] []) = Some 180
   \<and> discountTotal (computeTotals parseDigits [widgetLine, widgetLine] []) = Some 20
   \<and> taxTotal (computeTotals parseDigits [widgetLine, widgetLine] []) = Some (162 / 5)
   \<and> invoiceTotal (computeTotals parseDigits [widgetLine, widgetLine] []) = Some (1062 / 5)"
proof -
  have h: "parseDigits ''2'' = Some 2 \<and> parseDigits ''50'' = Some 50
      \<and> parseDigits ''10'' = Some 10 \<and> parseDigits ''18'' = Some 18
      \<and> (\<forall>l \<in> set [widgetLine, widgetLine]. dl_quantity l = ''2'' \<and> dl_unitPrice l = ''50''
                        \<and> dl_discount l = ''10'' \<and> dl_taxRate l = ''18'')"
    by (simp add: parseDigits_sample widgetLine_def)
  note T = invoice_totals [of 2 50 10 18 parseDigits "[widgetLine, widgetLine]" "[]" "[]"
      "[widgetLine, widgetLine]"]
  have "subtotal (computeTotals parseDigits [widgetLine, widgetLine] [])
          = Some (of_nat (length [widgetLine, widgetLine]) * 90)
        \<and> discountTotal (computeTotals parseDigits [widgetLine, widgetLine] [])
          = Some (of_nat (length [widgetLine, widgetLine]) * 10)
        \<and> taxTotal (computeTotals parseDigits [widgetLine, widgetLine] [])
          = Some (of_nat (length [widgetLine, widgetLine]) * (81 / 5))
        \<and> invoiceTotal (computeTotals parseDigits [widgetLine, widgetLine] [])
          = Some (of_nat (length [widgetLine, widgetLine]) * (531 / 5))"
    by (rule T [THEN conjunct2, THEN conjunct2, THEN conjunct2, THEN conjunct2, THEN conjunct2,
          THEN conjunct2, THEN conjunct2, THEN conjunct2, THEN conjunct2, THEN mp, OF h])
  then show ?thesis by simp
qed

section \<open>The per-account ledger\<close>

lemma insertBy_date:
  assumes "\<forall>y \<in> set ys. (lc (date x) (date y) \<le> 0) = (date x \<le> date y)"
  shows "insertBy (\<lambda>a b. lc (date a) (date b)) x ys = insort_key date x ys"
  using assms by (induction ys) simp_all

lemma js_sort_Cons: "js_sort cmp (x # xs) = insertBy cmp x (js_sort cmp xs)"
  by (simp add: js_sort_def)

lemma sum_list_insertBy:
  "sum_list (map g (insertBy cmp x ys)) = (g x :: rat) + sum_list (map g ys)"
  by (induction ys) simp_all

lemma sum_list_js_sort: "sum_list (map g (js_sort cmp xs)) = (sum_list (map g xs) :: rat)"
  by (induction xs) (simp_all add: js_sort_Cons sum_list_insertBy, simp add: js_sort_def)

lemma set_insertBy: "set (insertBy cmp x ys) = insert x (set ys)"
  by (induction ys) auto

lemma set_js_sort: "set (js_sort cmp xs) = set xs"
  by (induction xs) (simp_all add: js_sort_Cons set_insertBy, simp add: js_sort_def)

lemma js_sort_date:
  assumes "\<forall>x \<in> set xs. \<forall>y \<in> set xs. (lc (date x) (date y) \<le> 0) = (date x \<le> date y)"
  shows "js_sort (\<lambda>a b. lc (date a) (date b)) xs = sort_key date xs"
  using assms
proof (induction xs)
  case Nil
  then show ?case by (simp add: js_sort_def)
next
  case (Cons x xs)
  then have "js_sort (\<lambda>a b. lc (date a) (date b)) xs = sort_key date xs"
    by simp
  moreover have "\<forall>y \<in> set (sort_key date xs). (lc (date x) (date y) \<le> 0) = (date x \<le> date y)"
    using Cons.prems by simp
  ultimately show ?case
    by (simp add: js_sort_Cons insertBy_date)
qed

lemma foldl_pushLine:
  "foldl (pushLine a e) (b, rows) ls =
     (b + sum_list (map (\<lambda>l. debit l - credit l) ls),
      rows @ runningRows a b (map (Pair e) ls))"
  by (induction ls arbitrary: b rows) (simp_all add: pushLine_def Let_def add.assoc)

lemma runningRows_append:
  "runningRows a b (ps @ qs) =
     runningRows a b ps
       @ runningRows a (b + sum_list (map (\<lambda>p. debit (snd p) - credit (snd p)) ps)) qs"
  by (induction ps arbitrary: b) (simp_all add: add.assoc)

lemma foldl_pushEntry:
  "foldl (pushEntry a) (b, rows) es =
     (b + sum_list (map (\<lambda>p. debit (snd p) - credit (snd p)) (postings a es)),
      rows @ runningRows a b (postings a es))"
proof (induction es arbitrary: b rows)
  case Nil
  then show ?case by (simp add: postings_def)
next
  case (Cons e es)
  let ?ls = "filter (\<lambda>line. accountId line = acc_id a) (lines e)"
  have p: "postings a (e # es) = map (Pair e) ?ls @ postings a es"
    by (simp add: postings_def)
  have "foldl (pushEntry a) (b, rows) (e # es) =
          foldl (pushEntry a)
            (b + sum_list (map (\<lambda>l. debit l - credit l) ?ls),
             rows @ runningRows a b (map (Pair e) ?ls)) es"
    by (simp add: pushEntry_def foldl_pushLine)
  also have "\<dots> =
     (b + sum_list (map (\<lambda>l. debit l - credit l) ?ls)
        + sum_list (map (\<lambda>p. debit (snd p) - credit (snd p)) (postings a es)),
      (rows @ runningRows a b (map (Pair e) ?ls))
        @ runningRows a (b + sum_list (map (\<lambda>l. debit l - credit l) ?ls)) (postings a es))"
    by (rule Cons.IH)
  finally show ?case
    by (simp add: p runningRows_append comp_def add.assoc)
qed

lemma buildLedgerEntries_runningRows:
  "buildLedgerEntries lc es a f t =
     runningRows a 0 (postings a (js_sort (\<lambda>a b. lc (date a) (date b)) (filter (inRange f t) es)))"
  by (simp add: buildLedgerEntries_def Let_def foldl_pushEntry)

lemma rowPosting_runningRows: "map rowPosting (runningRows a b ps) = map postingShown ps"
  by (induction ps arbitrary: b) (simp_all add: rowPosting_def postingShown_def ledgerRow_def)

lemma length_runningRows: "length (runningRows a b ps) = length ps"
  by (induction ps arbitrary: b) simp_all

lemma runningRows_fields:
  "r \<in> set (runningRows a b ps) \<Longrightarrow> le_accountId r = acc_id a \<and> le_accountName r = acc_name a"
  by (induction ps arbitrary: b) (auto simp: ledgerRow_def)

lemma runningRows_step:
  "i < length ps \<Longrightarrow>
     le_balance (runningRows a b ps ! i) =
       (if i = 0 then b else le_balance (runningRows a b ps ! (i - 1)))
       + (le_debit (runningRows a b ps ! i) - le_credit (runningRows a b ps ! i))"
proof (induction ps arbitrary: b i)
  case Nil
  then show ?case by simp
next
  case (Cons p ps)
  show ?case
  proof (cases i)
    case 0
    then show ?thesis by (simp add: ledgerRow_def)
  next
    case (Suc j)
    with Cons.prems have j: "j < length ps" by simp
    show ?thesis
    proof (cases j)
      case 0
      with Suc j show ?thesis
        using Cons.IH [of 0 "b + (debit (snd p) - credit (snd p))"]
        by (simp add: ledgerRow_def)
    next
      case (Suc k)
      with \<open>i = Suc j\<close> j show ?thesis
        using Cons.IH [of j "b + (debit (snd p) - credit (snd p))"]
        by simp
    qed
  qed
qed

lemma runningRows_last:
  "ps \<noteq> [] \<Longrightarrow>
     le_balance (last (runningRows a b ps)) =
       b + sum_list (map (\<lambda>p. debit (snd p) - credit (snd p)) ps)"
proof (induction ps arbitrary: b)
  case Nil
  then show ?case by simp
next
  case (Cons p ps)
  show ?case
  proof (cases "ps = []")
    case True
    then show ?thesis by (simp add: ledgerRow_def)
  next
    case False
    then have "runningRows a (b + (debit (snd p) - credit (snd p))) ps \<noteq> []"
      by (cases ps) simp_all
    with False Cons.IH [of "b + (debit (snd p) - credit (snd p))"] show ?thesis
      by (simp add: add.assoc)
  qed
qed

lemma postings_Cons:
  "postings a (e # es) =
     map (Pair e) (filter (\<lambda>line. accountId line = acc_id a) (lines e)) @ postings a es"
  by (simp add: postings_def)

lemma postings_Nil: "postings a [] = []"
  by (simp add: postings_def)

lemma postings_dates: "p \<in> set (postings a es) \<Longrightarrow> fst p \<in> set es"
  by (auto simp: postings_def)

lemma sorted_map_const: "sorted (map (\<lambda>x. c) xs)"
  by (induction xs) simp_all

lemma sorted_postings:
  "sorted (map date es) \<Longrightarrow> sorted (map (\<lambda>p. date (fst p)) (postings a es))"
proof (induction es)
  case Nil
  then show ?case by (simp add: postings_Nil)
next
  case (Cons e es)
  then have "\<forall>p \<in> set (postings a es). date e \<le> date (fst p)"
    by (auto dest: postings_dates)
  with Cons show ?case
    by (auto simp: postings_Cons sorted_append comp_def sorted_map_const)
qed

lemma filter_postings:
  "filter (\<lambda>p. date (fst p) = d) (postings a es) = postings a (filter (\<lambda>e. date e = d) es)"
  by (induction es) (auto simp: postings_Cons postings_Nil filter_map comp_def)

lemma postings_sum:
  "sum_list (map (\<lambda>p. debit (snd p) - credit (snd p)) (postings a es))
     = sum_list (map (\<lambda>e. balanceOf (acc_id a) (lines e)) es)"
  by (induction es) (simp_all add: postings_Cons postings_Nil balanceOf_def comp_def)

lemma balanceOf_allLines:
  "balanceOf k (allLines es) = sum_list (map (\<lambda>e. balanceOf k (lines e)) es)"
  by (induction es) (simp_all add: allLines_def balanceOf_def)

lemma snd_postings:
  "map snd (postings a es) = filter (\<lambda>l. accountId l = acc_id a) (allLines es)"
  by (induction es) (simp_all add: postings_Cons postings_Nil allLines_def comp_def)

lemma postings_empty_iff:
  "postings a es = [] \<longleftrightarrow> acc_id a \<notin> accountId ` set (allLines es)"
proof -
  have "postings a es = [] \<longleftrightarrow> map snd (postings a es) = []"
    by simp
  also have "\<dots> \<longleftrightarrow> acc_id a \<notin> accountId ` set (allLines es)"
    unfolding snd_postings by (auto simp: filter_empty_conv intro: rev_image_eqI)
  finally show ?thesis .
qed

lemma set_allLines_js_sort: "set (allLines (js_sort cmp es)) = set (allLines es)"
  by (simp add: allLines_def set_js_sort)

lemma singleton_posting:
  assumes "map (\<lambda>l. (debit l, credit l)) (filter (\<lambda>l. accountId l = acc_id a) (lines e)) = [(x, y)]"
  shows "\<exists>l. filter (\<lambda>l. accountId l = acc_id a) (lines e) = [l] \<and> debit l = x \<and> credit l = y"
  using assms by auto

lemma sort_three:
  assumes "mset es = {#e1, e2, e3#}" and "date e1 < date e2" and "date e2 < date e3"
  shows "sort_key date es = [e1, e2, e3]"
proof (rule properties_for_sort_key)
  show "mset [e1, e2, e3] = mset es" using assms(1) by simp
next
  show "sorted (map date [e1, e2, e3])" using assms(2,3) by auto
next
  fix k assume k: "k \<in> set [e1, e2, e3]"
  have d: "date e1 \<noteq> date e2" "date e2 \<noteq> date e3" "date e1 \<noteq> date e3"
    using assms(2,3) by auto
  have "mset (filter (\<lambda>x. date k = date x) es) = mset (filter (\<lambda>x. date k = date x) [e1, e2, e3])"
    using assms(1) by (simp only: mset_filter) simp
  moreover have "\<exists>j. filter (\<lambda>x. date k = date x) [e1, e2, e3] = [j]"
    using k d by auto
  ultimately show "filter (\<lambda>x. date k = date x) [e1, e2, e3] = filter (\<lambda>x. date k = date x) es"
    by (metis mset_single_iff_right)
qed

lemma isoCollation_dates:
  assumes "\<forall>e \<in> set es. isoDate (date e)"
    and "\<forall>x y. isoDate x \<and> isoDate y \<longrightarrow> (lc x y \<le> 0) = (x \<le> y)"
  shows "js_sort (\<lambda>a b. lc (date a) (date b)) (filter P es) = sort_key date (filter P es)"
  using assms by (intro js_sort_date) auto

lemma inRange_filter: "filter (inRange f t) es = filter (\<lambda>e. f \<le> date e \<and> date e \<le> t) es"
  by (simp add: inRange_def [abs_def])

text \<open>
  C4. Every row returned by \<open>buildLedgerEntries\<close> carries the account's id and name and
  a date \<open>d\<close> with \<open>fromDate \<le> d \<le> toDate\<close> in the order of strings. The balance of the
  first row is its debit minus its credit, and the balance of every later row is the
  balance of the row before it plus its debit minus its credit. When the dates of the
  entries are ISO dates, on which the runtime's collation is the order of strings: the rows
  are exactly the lines of the account in the entries \<open>e\<close> with
  \<open>fromDate \<le> date e \<le> toDate\<close>, taken entry by entry with these entries sorted by date;
  the dates of the rows ascend; the rows of one date are the account's lines of the entries
  of that date in the order of the entry list and of the lines within an entry; and if the
  entries within the bounds are three, dated \<open>d1 < d2 < d3\<close>, in any order in the list, whose
  lines on the account are (100, 0), (0, 40) and (0, 10), the balances are 100, 60, 50.
\<close>

theorem buildLedgerEntries_rows:
  "list_all (\<lambda>r. le_accountId r = acc_id a \<and> le_accountName r = acc_name a
                  \<and> f \<le> le_date r \<and> le_date r \<le> t)
     (buildLedgerEntries lc es a f t)
   \<and> (\<forall>i < length (buildLedgerEntries lc es a f t).
        le_balance (buildLedgerEntries lc es a f t ! i) =
          (if i = 0 then 0 else le_balance (buildLedgerEntries lc es a f t ! (i - 1)))
          + (le_debit (buildLedgerEntries lc es a f t ! i)
             - le_credit (buildLedgerEntries lc es a f t ! i)))
   \<and> ((\<forall>e \<in> set es. isoDate (date e))
      \<and> (\<forall>x y. isoDate x \<and> isoDate y \<longrightarrow> (lc x y \<le> 0) = (x \<le> y))
      \<longrightarrow> map rowPosting (buildLedgerEntries lc es a f t)
            = map postingShown
                (postings a (sort_key date (filter (\<lambda>e. f \<le> date e \<and> date e \<le> t) es)))
        \<and> sorted (map le_date (buildLedgerEntries lc es a f t))
        \<and> (\<forall>d. map rowPosting (filter (\<lambda>r. le_date r = d) (buildLedgerEntries lc es a f t))
               = map postingShown
                   (postings a (filter (\<lambda>e. date e = d)
                      (filter (\<lambda>e. f \<le> date e \<and> date e \<le> t) es))))
        \<and> (mset (filter (\<lambda>e. f \<le> date e \<and> date e \<le> t) es) = {#e1, e2, e3#}
            \<and> date e1 < date e2 \<and> date e2 < date e3
            \<and> map (\<lambda>l. (debit l, credit l)) (filter (\<lambda>l. accountId l = acc_id a) (lines e1))
                = [(100, 0)]
            \<and> map (\<lambda>l. (debit l, credit l)) (filter (\<lambda>l. accountId l = acc_id a) (lines e2))
                = [(0, 40)]
            \<and> map (\<lambda>l. (debit l, credit l)) (filter (\<lambda>l. accountId l = acc_id a) (lines e3))
                = [(0, 10)]
           \<longrightarrow> map le_balance (buildLedgerEntries lc es a f t) = [100, 60, 50]))"
proof (intro conjI allI impI)
  let ?X = "filter (\<lambda>e. f \<le> date e \<and> date e \<le> t) es"
  let ?J = "js_sort (\<lambda>a b. lc (date a) (date b)) ?X"
  let ?rows = "buildLedgerEntries lc es a f t"
  have rows: "?rows = runningRows a 0 (postings a ?J)"
    by (simp add: buildLedgerEntries_runningRows inRange_filter)
  have core: "map rowPosting ?rows = map postingShown (postings a ?J)"
    by (simp add: rows rowPosting_runningRows)
  have dates: "map le_date ?rows = map (\<lambda>p. date (fst p)) (postings a ?J)"
  proof -
    have "map le_date ?rows = map fst (map rowPosting ?rows)"
      by (simp add: rowPosting_def comp_def)
    also have "\<dots> = map (\<lambda>p. date (fst p)) (postings a ?J)"
      by (simp add: core postingShown_def comp_def)
    finally show ?thesis .
  qed
  have inb: "f \<le> le_date r \<and> le_date r \<le> t" if "r \<in> set ?rows" for r
  proof -
    from that have "le_date r \<in> set (map le_date ?rows)" by simp
    then obtain p where "p \<in> set (postings a ?J)" and "le_date r = date (fst p)"
      unfolding dates by auto
    then have "fst p \<in> set ?X" and "le_date r = date (fst p)"
      using postings_dates [of p a ?J] by (simp_all add: set_js_sort)
    then show ?thesis by simp
  qed
  show "list_all (\<lambda>r. le_accountId r = acc_id a \<and> le_accountName r = acc_name a
                  \<and> f \<le> le_date r \<and> le_date r \<le> t) ?rows"
    unfolding list_all_iff
  proof
    fix r assume r: "r \<in> set ?rows"
    then have "r \<in> set (runningRows a 0 (postings a ?J))" by (simp only: rows)
    then have "le_accountId r = acc_id a \<and> le_accountName r = acc_name a"
      by (rule runningRows_fields)
    with inb [OF r] show "le_accountId r = acc_id a \<and> le_accountName r = acc_name a
                  \<and> f \<le> le_date r \<and> le_date r \<le> t"
      by simp
  qed
  show "le_balance (?rows ! i) =
          (if i = 0 then 0 else le_balance (?rows ! (i - 1)))
          + (le_debit (?rows ! i) - le_credit (?rows ! i))" if "i < length ?rows" for i
    using that unfolding rows by (intro runningRows_step) (simp add: length_runningRows)
  assume iso: "(\<forall>e \<in> set es. isoDate (date e))
      \<and> (\<forall>x y. isoDate x \<and> isoDate y \<longrightarrow> (lc x y \<le> 0) = (x \<le> y))"
  let ?S = "sort_key date ?X"
  have J: "?J = ?S"
    using iso by (intro isoCollation_dates) blast+
  show exact: "map rowPosting ?rows = map postingShown (postings a ?S)"
    using core by (simp only: J)
  show "sorted (map le_date ?rows)"
    unfolding dates J by (simp add: sorted_postings)
  show "map rowPosting (filter (\<lambda>r. le_date r = d) ?rows)
          = map postingShown (postings a (filter (\<lambda>e. date e = d) ?X))" for d
  proof -
    have "map rowPosting (filter (\<lambda>r. le_date r = d) ?rows)
            = filter (\<lambda>x. fst x = d) (map rowPosting ?rows)"
      by (simp add: filter_map comp_def rowPosting_def)
    also have "\<dots> = map postingShown (filter (\<lambda>p. date (fst p) = d) (postings a ?S))"
      by (simp add: exact filter_map comp_def postingShown_def)
    also have "\<dots> = map postingShown (postings a (filter (\<lambda>e. date e = d) ?S))"
      by (simp add: filter_postings)
    also have "filter (\<lambda>e. date e = d) ?S = filter (\<lambda>e. date e = d) ?X"
      by (rule sort_key_stable)
    finally show ?thesis .
  qed
  assume h: "mset ?X = {#e1, e2, e3#}
            \<and> date e1 < date e2 \<and> date e2 < date e3
            \<and> map (\<lambda>l. (debit l, credit l)) (filter (\<lambda>l. accountId l = acc_id a) (lines e1))
                = [(100, 0)]
            \<and> map (\<lambda>l. (debit l, credit l)) (filter (\<lambda>l. accountId l = acc_id a) (lines e2))
                = [(0, 40)]
            \<and> map (\<lambda>l. (debit l, credit l)) (filter (\<lambda>l. accountId l = acc_id a) (lines e3))
                = [(0, 10)]"
  have "?S = [e1, e2, e3]"
    using h by (intro sort_three) blast+
  then have r3: "?rows = runningRows a 0 (postings a [e1, e2, e3])"
    using rows by (simp only: J)
  from h obtain l1 where l1: "filter (\<lambda>l. accountId l = acc_id a) (lines e1) = [l1]"
      "debit l1 = 100" "credit l1 = 0"
    using singleton_posting [of a e1 100 0] by blast
  from h obtain l2 where l2: "filter (\<lambda>l. accountId l = acc_id a) (lines e2) = [l2]"
      "debit l2 = 0" "credit l2 = 40"
    using singleton_posting [of a e2 0 40] by blast
  from h obtain l3 where l3: "filter (\<lambda>l. accountId l = acc_id a) (lines e3) = [l3]"
      "debit l3 = 0" "credit l3 = 10"
    using singleton_posting [of a e3 0 10] by blast
  have "postings a [e1, e2, e3] = [(e1, l1), (e2, l2), (e3, l3)]"
    by (simp add: postings_def l1 l2 l3)
  then show "map le_balance ?rows = [100, 60, 50]"
    by (simp add: r3 ledgerRow_def l1 l2 l3)
qed

lemma codeUnitCompare_le: "(codeUnitCompare x y \<le> 0) = (x \<le> y)"
  by (auto simp: codeUnitCompare_def)

lemma sample_dates:
  "isoDate (date sale)" "isoDate (date rentPaid)" "isoDate (date feePaid)"
  "isoDate (date earlySale)" "isoDate (date lateFee)" "isoDate (date oneLegged)"
  by (simp_all add: isoDate_def isDigit_def sale_def rentPaid_def feePaid_def earlySale_def
      lateFee_def oneLegged_def)

theorem buildLedgerEntries_rows_witness:
  "map le_date (buildLedgerEntries codeUnitCompare [lateFee, feePaid, earlySale, sale, rentPaid]
       cash ''2024-03-05'' ''2024-05-10'')
     = [''2024-03-05'', ''2024-04-01'', ''2024-05-10'']
   \<and> map le_balance (buildLedgerEntries codeUnitCompare [lateFee, feePaid, earlySale, sale, rentPaid]
       cash ''2024-03-05'' ''2024-05-10'')
     = [100, 60, 50]"
proof -
  let ?es = "[lateFee, feePaid, earlySale, sale, rentPaid]"
  let ?rows = "buildLedgerEntries codeUnitCompare ?es cash ''2024-03-05'' ''2024-05-10''"
  have X: "filter (\<lambda>e. ''2024-03-05'' \<le> date e \<and> date e \<le> ''2024-05-10'') ?es
             = [feePaid, sale, rentPaid]"
    by (simp add: sale_def rentPaid_def feePaid_def earlySale_def lateFee_def)
  have iso: "(\<forall>e \<in> set ?es. isoDate (date e))
      \<and> (\<forall>x y. isoDate x \<and> isoDate y \<longrightarrow> (codeUnitCompare x y \<le> 0) = (x \<le> y))"
    by (simp add: sample_dates codeUnitCompare_le)
  have h: "mset (filter (\<lambda>e. ''2024-03-05'' \<le> date e \<and> date e \<le> ''2024-05-10'') ?es)
              = {#sale, rentPaid, feePaid#}
            \<and> date sale < date rentPaid \<and> date rentPaid < date feePaid
            \<and> map (\<lambda>l. (debit l, credit l)) (filter (\<lambda>l. accountId l = acc_id cash) (lines sale))
                = [(100, 0)]
            \<and> map (\<lambda>l. (debit l, credit l)) (filter (\<lambda>l. accountId l = acc_id cash) (lines rentPaid))
                = [(0, 40)]
            \<and> map (\<lambda>l. (debit l, credit l)) (filter (\<lambda>l. accountId l = acc_id cash) (lines feePaid))
                = [(0, 10)]"
    unfolding X by (simp add: sale_def rentPaid_def feePaid_def cash_def)
  note T = buildLedgerEntries_rows [of cash "''2024-03-05''" "''2024-05-10''" codeUnitCompare ?es
      sale rentPaid feePaid, THEN conjunct2, THEN conjunct2, THEN mp, OF iso]
  have bal: "map le_balance ?rows = [100, 60, 50]"
    by (rule T [THEN conjunct2, THEN conjunct2, THEN conjunct2, THEN mp, OF h])
  have "map le_date ?rows = map fst (map rowPosting ?rows)"
    by (simp add: rowPosting_def comp_def)
  also have "\<dots> = [''2024-03-05'', ''2024-04-01'', ''2024-05-10'']"
    unfolding T [THEN conjunct1] X
    by (simp add: postings_def postingShown_def sale_def rentPaid_def feePaid_def cash_def)
  finally show ?thesis using bal by simp
qed

section \<open>Sums that do not round\<close>

text \<open>
  Rounding to a double leaves a whole number below \<open>2 ^ 53\<close> as it is, so the double
  operations are exact on such numbers, and on amounts of this kind the loops over the
  runtime's arithmetic compute what the exact loops compute.
\<close>

text \<open>Over exact addition and subtraction the loops with parameters are the exact loops.\<close>

lemma postLineWith_plus: "postLineWith (+) (-) = postLine"
  by (intro ext) (simp add: postLineWith_def postLine_def)

lemma computeAccountBalancesWith_plus:
  "computeAccountBalancesWith (+) (-) es = computeAccountBalances es"
  by (simp add: computeAccountBalancesWith_def computeAccountBalances_def postLineWith_plus)

lemma sumAmountsWith_plus: "sumAmountsWith (+) = sumAmounts"
  by (intro ext) (simp add: sumAmountsWith_def sumAmounts_def)

lemma buildReportsWith_plus: "buildReportsWith (+) (-) es accs f t = buildReports es accs f t"
  by (simp add: buildReportsWith_def buildReports_def computeAccountBalancesWith_plus
      sumAmountsWith_plus)

lemma pushLineWith_plus: "pushLineWith (+) (-) = pushLine"
  by (intro ext) (simp add: pushLineWith_def pushLine_def)

lemma buildLedgerEntriesWith_plus:
  "buildLedgerEntriesWith (+) (-) lc es a f t = buildLedgerEntries lc es a f t"
  by (simp add: buildLedgerEntriesWith_def buildLedgerEntries_def pushEntryWith_def [abs_def]
      pushEntry_def [abs_def] pushLineWith_plus)

lemma pow2_pos: "0 < pow2 n"
  by (simp add: pow2_def)

lemma pow2_add: "pow2 (m + n) = pow2 m * pow2 n"
proof -
  have "pow2 k = 2 powi k" for k
    by (simp add: pow2_def power_int_def field_simps)
  then show ?thesis by (simp add: power_int_add)
qed

lemma pow2_nonneg_int: "0 \<le> n \<Longrightarrow> pow2 n = of_int (2 ^ nat n)"
  by (simp add: pow2_def)

lemma pow2_mono: "m \<le> n \<Longrightarrow> pow2 m \<le> pow2 n"
proof -
  have "pow2 k = 2 powi k" for k
    by (simp add: pow2_def power_int_def field_simps)
  then show "m \<le> n \<Longrightarrow> pow2 m \<le> pow2 n"
    by (simp add: power_int_increasing)
qed

lemma expo_le: assumes "x \<noteq> 0" shows "pow2 (expo x) \<le> \<bar>x\<bar>"
proof -
  obtain p q where pq: "quotient_of \<bar>x\<bar> = (p, q)" by (cases "quotient_of \<bar>x\<bar>")
  then have q: "0 < q" and x: "\<bar>x\<bar> = of_int p / of_int q"
    by (auto dest: quotient_of_denom_pos quotient_of_div)
  from assms have "0 < \<bar>x\<bar>" by simp
  with q x have p: "0 < p"
    by (simp add: zero_less_divide_iff)
  let ?e0 = "bitlen p - bitlen q"
  show ?thesis
  proof (cases "pow2 ?e0 \<le> \<bar>x\<bar>")
    case True
    then show ?thesis by (simp add: expo_def pq Let_def)
  next
    case False
    have bp: "(2::int) ^ nat (bitlen p - 1) \<le> p" using bitlen_bounds [OF p] by simp
    have bq: "q < 2 ^ nat (bitlen q)" using bitlen_bounds [OF q] by simp
    have bpos: "0 < bitlen p" "0 < bitlen q"
      using p q bitlen_nonneg [of p] bitlen_nonneg [of q] bitlen_eq_zero_iff [of p]
        bitlen_eq_zero_iff [of q]
      by linarith+
    have "pow2 (?e0 - 1) * of_int q \<le> pow2 (?e0 - 1) * pow2 (bitlen q)"
    proof -
      have "of_int q \<le> pow2 (bitlen q)"
        using bq bpos by (simp add: pow2_nonneg_int less_imp_le flip: of_int_le_iff)
      then show ?thesis using pow2_pos [of "?e0 - 1"] by simp
    qed
    also have "\<dots> = pow2 (bitlen p - 1)"
      by (simp flip: pow2_add)
    also have "\<dots> \<le> of_int p"
      using bp bpos by (simp add: pow2_nonneg_int flip: of_int_le_iff)
    finally have "pow2 (?e0 - 1) \<le> of_int p / of_int q"
      using q by (simp add: pos_le_divide_eq)
    then have "pow2 (?e0 - 1) \<le> \<bar>x\<bar>"
      by (simp only: x)
    moreover from False have "expo x = ?e0 - 1"
      by (simp add: expo_def pq Let_def)
    ultimately show ?thesis by simp
  qed
qed

lemma roundHalfEven_int: "roundHalfEven (of_int n) = n"
  by (simp add: roundHalfEven_def)

lemma toDouble_whole:
  assumes "x \<in> \<int>" and "\<bar>x\<bar> < 2 ^ 53"
  shows "toDouble x = x"
proof (cases "x = 0")
  case True
  then show ?thesis by (simp add: toDouble_def)
next
  case False
  let ?e = "max (expo x) (- 1022)"
  have "pow2 (expo x) \<le> \<bar>x\<bar>" using False by (rule expo_le)
  with assms(2) have "pow2 (expo x) < pow2 53" by (simp add: pow2_def)
  then have "expo x < 53"
    using pow2_mono [of 53 "expo x"] by (cases "expo x < 53") auto
  then have e: "0 \<le> 52 - ?e" by simp
  from assms(1) obtain n where n: "x = of_int n" by (auto elim: Ints_cases)
  have "x * pow2 (52 - ?e) = of_int (n * 2 ^ nat (52 - ?e))"
    using e by (simp add: n pow2_nonneg_int)
  then have "of_int (roundHalfEven (x * pow2 (52 - ?e))) = x * pow2 (52 - ?e)"
    by (simp only: roundHalfEven_int)
  then have "toDouble x = x * pow2 (52 - ?e) * pow2 (?e - 52)"
    using False by (simp add: toDouble_def Let_def)
  also have "\<dots> = x * pow2 ((52 - ?e) + (?e - 52))"
    by (simp only: pow2_add mult.assoc)
  also have "\<dots> = x" by (simp add: pow2_def)
  finally show ?thesis .
qed

lemma wholeExact_double: "wholeExact dadd dsub"
  by (simp add: wholeExact_def dadd_def dsub_def toDouble_whole)

lemma wholeExact_add:
  "wholeExact add sub \<Longrightarrow> a \<in> \<int> \<Longrightarrow> b \<in> \<int> \<Longrightarrow> \<bar>a\<bar> + \<bar>b\<bar> < 2 ^ 53 \<Longrightarrow> add a b = a + b"
proof -
  assume w: "wholeExact add sub" and ab: "a \<in> \<int>" "b \<in> \<int>" and "\<bar>a\<bar> + \<bar>b\<bar> < 2 ^ 53"
  then have "\<bar>a + b\<bar> < 2 ^ 53" by linarith
  with w ab show ?thesis unfolding wholeExact_def by blast
qed

lemma wholeExact_sub:
  "wholeExact add sub \<Longrightarrow> a \<in> \<int> \<Longrightarrow> b \<in> \<int> \<Longrightarrow> \<bar>a\<bar> + \<bar>b\<bar> < 2 ^ 53 \<Longrightarrow> sub a b = a - b"
proof -
  assume w: "wholeExact add sub" and ab: "a \<in> \<int>" "b \<in> \<int>" and "\<bar>a\<bar> + \<bar>b\<bar> < 2 ^ 53"
  then have "\<bar>a - b\<bar> < 2 ^ 53" by linarith
  with w ab show ?thesis unfolding wholeExact_def by blast
qed

lemma abs_sum_nonneg: "0 \<le> sum_list (map (\<lambda>l. \<bar>debit l\<bar> + \<bar>credit l\<bar>) ls)"
  by (induction ls) simp_all

lemma post_exact:
  assumes "wholeExact add sub" and "v \<in> \<int>" and "d \<in> \<int>" and "c \<in> \<int>"
    and "\<bar>v\<bar> + \<bar>d\<bar> + \<bar>c\<bar> < 2 ^ 53"
  shows "sub (add v d) c = v + d - c"
proof -
  have "add v d = v + d"
    using assms by (intro wholeExact_add [of add sub]) auto
  moreover have "sub (v + d) c = v + d - c"
    using assms by (intro wholeExact_sub [of add sub]) auto
  ultimately show ?thesis by simp
qed

lemma push_exact:
  assumes "wholeExact add sub" and "b \<in> \<int>" and "d \<in> \<int>" and "c \<in> \<int>"
    and "\<bar>b\<bar> + \<bar>d\<bar> + \<bar>c\<bar> < 2 ^ 53"
  shows "add b (sub d c) = b + (d - c)"
proof -
  have "sub d c = d - c"
    using assms by (intro wholeExact_sub [of add sub]) auto
  moreover have "add b (d - c) = b + (d - c)"
    using assms by (intro wholeExact_add [of add sub]) auto
  ultimately show ?thesis by simp
qed

lemma postLineWith_apply:
  "postLineWith add sub m l k =
     (if k = accountId l then Some (sub (add (getOr0 m k) (debit l)) (credit l)) else m k)"
  by (simp add: postLineWith_def)

lemma getOr0_cong: "m k = m' k \<Longrightarrow> getOr0 m k = getOr0 m' k"
  by (simp add: getOr0_def)

lemma foldl_postLineWith_key:
  assumes w: "wholeExact add sub"
  shows "m k = m' k \<Longrightarrow> getOr0 m' k \<in> \<int> \<Longrightarrow>
     (\<forall>l \<in> set (filter (\<lambda>l. accountId l = k) ls). debit l \<in> \<int> \<and> credit l \<in> \<int>) \<Longrightarrow>
     \<bar>getOr0 m' k\<bar> + sum_list (map (\<lambda>l. \<bar>debit l\<bar> + \<bar>credit l\<bar>)
                          (filter (\<lambda>l. accountId l = k) ls)) < 2 ^ 53 \<Longrightarrow>
     foldl (postLineWith add sub) m ls k = foldl postLine m' ls k"
proof (induction ls arbitrary: m m')
  case Nil
  then show ?case by simp
next
  case (Cons l ls)
  let ?r = "sum_list (map (\<lambda>l. \<bar>debit l\<bar> + \<bar>credit l\<bar>) (filter (\<lambda>l. accountId l = k) ls))"
  have r: "0 \<le> ?r" by (rule abs_sum_nonneg)
  show ?case
  proof (cases "accountId l = k")
    case True
    let ?v = "getOr0 m' k"
    from Cons.prems True have dc: "debit l \<in> \<int>" "credit l \<in> \<int>"
      and bound: "\<bar>?v\<bar> + (\<bar>debit l\<bar> + \<bar>credit l\<bar> + ?r) < 2 ^ 53"
      by simp_all
    have v: "getOr0 m k = ?v" using Cons.prems(1) by (rule getOr0_cong)
    have ex: "sub (add ?v (debit l)) (credit l) = ?v + debit l - credit l"
      using w Cons.prems(2) dc bound r by (intro post_exact) auto
    have eq: "postLineWith add sub m l k = postLine m' l k"
      using True by (simp add: postLineWith_apply postLine_apply v ex)
    have g: "getOr0 (postLine m' l) k = ?v + debit l - credit l"
      using True by (simp add: getOr0_postLine)
    have "foldl (postLineWith add sub) (postLineWith add sub m l) ls k
            = foldl postLine (postLine m' l) ls k"
    proof (rule Cons.IH [of "postLineWith add sub m l" "postLine m' l"])
      show "postLineWith add sub m l k = postLine m' l k" by (rule eq)
      show "getOr0 (postLine m' l) k \<in> \<int>"
        using Cons.prems(2) dc by (simp add: g)
      show "\<forall>l \<in> set (filter (\<lambda>l. accountId l = k) ls). debit l \<in> \<int> \<and> credit l \<in> \<int>"
        using Cons.prems(3) by simp
      have "\<bar>?v + debit l - credit l\<bar> \<le> \<bar>?v\<bar> + \<bar>debit l\<bar> + \<bar>credit l\<bar>"
        by linarith
      with bound show "\<bar>getOr0 (postLine m' l) k\<bar> + ?r < 2 ^ 53"
        by (simp add: g)
    qed
    then show ?thesis by simp
  next
    case False
    then have eq: "postLineWith add sub m l k = postLine m' l k"
      using Cons.prems(1) by (simp add: postLineWith_apply postLine_apply)
    have g: "getOr0 (postLine m' l) k = getOr0 m' k"
      using False by (simp add: getOr0_postLine)
    have "foldl (postLineWith add sub) (postLineWith add sub m l) ls k
            = foldl postLine (postLine m' l) ls k"
      using Cons.prems False eq
      by (intro Cons.IH [of "postLineWith add sub m l" "postLine m' l"]) (simp_all add: g)
    then show ?thesis by simp
  qed
qed

lemma computeAccountBalancesWith_allLines:
  "computeAccountBalancesWith add sub es = foldl (postLineWith add sub) Map.empty (allLines es)"
  by (simp add: computeAccountBalancesWith_def allLines_def foldl_nested_concat)

lemma computeAccountBalancesWith_exact:
  assumes "wholeExact add sub"
    and "wholeAmounts (filter (\<lambda>l. accountId l = k) (allLines es))"
  shows "computeAccountBalancesWith add sub es k = computeAccountBalances es k"
  unfolding computeAccountBalancesWith_allLines computeAccountBalances_allLines
  using assms
  by (intro foldl_postLineWith_key) (simp_all add: wholeAmounts_def getOr0_def)

lemma foldl_pushLineWith:
  assumes w: "wholeExact add sub"
  shows "b \<in> \<int> \<Longrightarrow> (\<forall>l \<in> set ls. debit l \<in> \<int> \<and> credit l \<in> \<int>) \<Longrightarrow>
     \<bar>b\<bar> + sum_list (map (\<lambda>l. \<bar>debit l\<bar> + \<bar>credit l\<bar>) ls) < 2 ^ 53 \<Longrightarrow>
     foldl (pushLineWith add sub a e) (b, rows) ls = foldl (pushLine a e) (b, rows) ls"
proof (induction ls arbitrary: b rows)
  case Nil
  then show ?case by simp
next
  case (Cons l ls)
  let ?r = "sum_list (map (\<lambda>l. \<bar>debit l\<bar> + \<bar>credit l\<bar>) ls)"
  have r: "0 \<le> ?r" by (rule abs_sum_nonneg)
  from Cons.prems have dc: "debit l \<in> \<int>" "credit l \<in> \<int>"
    and bound: "\<bar>b\<bar> + (\<bar>debit l\<bar> + \<bar>credit l\<bar> + ?r) < 2 ^ 53"
    by simp_all
  have ex: "add b (sub (debit l) (credit l)) = b + (debit l - credit l)"
    using w Cons.prems(1) dc bound r by (intro push_exact) auto
  have step: "pushLineWith add sub a e (b, rows) l = pushLine a e (b, rows) l"
    by (simp add: pushLineWith_def pushLine_def Let_def ex)
  let ?b' = "b + (debit l - credit l)"
  have st: "pushLine a e (b, rows) l = (?b', rows @ [ledgerRow a e l ?b'])"
    by (simp add: pushLine_def Let_def)
  have "foldl (pushLineWith add sub a e) (?b', rows @ [ledgerRow a e l ?b']) ls
          = foldl (pushLine a e) (?b', rows @ [ledgerRow a e l ?b']) ls"
  proof (rule Cons.IH)
    show "?b' \<in> \<int>" using Cons.prems(1) dc by simp
    show "\<forall>l \<in> set ls. debit l \<in> \<int> \<and> credit l \<in> \<int>" using Cons.prems(2) by simp
    have "\<bar>?b'\<bar> \<le> \<bar>b\<bar> + \<bar>debit l\<bar> + \<bar>credit l\<bar>" by linarith
    with bound show "\<bar>?b'\<bar> + ?r < 2 ^ 53" by simp
  qed
  then show ?case by (simp add: step st)
qed

lemma fst_foldl_pushLine:
  "fst (foldl (pushLine a e) (b, rows) ls) = b + sum_list (map (\<lambda>l. debit l - credit l) ls)"
  by (simp add: foldl_pushLine)

lemma whole_sum: "\<forall>l \<in> set ls. debit l \<in> \<int> \<and> credit l \<in> \<int> \<Longrightarrow>
    sum_list (map (\<lambda>l. debit l - credit l) ls) \<in> \<int>"
  by (induction ls) simp_all

lemma abs_sum_le:
  "\<bar>sum_list (map (\<lambda>l. debit l - credit l) ls)\<bar> \<le> sum_list (map (\<lambda>l. \<bar>debit l\<bar> + \<bar>credit l\<bar>) ls)"
proof (induction ls)
  case Nil
  then show ?case by simp
next
  case (Cons l ls)
  have "\<bar>debit l - credit l + sum_list (map (\<lambda>l. debit l - credit l) ls)\<bar>
          \<le> \<bar>debit l\<bar> + \<bar>credit l\<bar> + \<bar>sum_list (map (\<lambda>l. debit l - credit l) ls)\<bar>"
    by linarith
  with Cons show ?case by simp
qed

lemma foldl_pushEntryWith:
  assumes w: "wholeExact add sub"
  shows "b \<in> \<int> \<Longrightarrow>
     (\<forall>l \<in> set (filter (\<lambda>l. accountId l = acc_id a) (allLines es)). debit l \<in> \<int> \<and> credit l \<in> \<int>) \<Longrightarrow>
     \<bar>b\<bar> + sum_list (map (\<lambda>l. \<bar>debit l\<bar> + \<bar>credit l\<bar>)
               (filter (\<lambda>l. accountId l = acc_id a) (allLines es))) < 2 ^ 53 \<Longrightarrow>
     foldl (pushEntryWith add sub a) (b, rows) es = foldl (pushEntry a) (b, rows) es"
proof (induction es arbitrary: b rows)
  case Nil
  then show ?case by simp
next
  case (Cons e es)
  let ?ls = "filter (\<lambda>l. accountId l = acc_id a) (lines e)"
  let ?rest = "filter (\<lambda>l. accountId l = acc_id a) (allLines es)"
  let ?abs = "\<lambda>ls. sum_list (map (\<lambda>l. \<bar>debit l\<bar> + \<bar>credit l\<bar>) ls)"
  have split: "filter (\<lambda>l. accountId l = acc_id a) (allLines (e # es)) = ?ls @ ?rest"
    by (simp add: allLines_def)
  from Cons.prems(2) have wl: "\<forall>l \<in> set ?ls. debit l \<in> \<int> \<and> credit l \<in> \<int>"
    and wr: "\<forall>l \<in> set ?rest. debit l \<in> \<int> \<and> credit l \<in> \<int>"
    unfolding split by auto
  from Cons.prems(3) have bound: "\<bar>b\<bar> + (?abs ?ls + ?abs ?rest) < 2 ^ 53"
    unfolding split by simp
  have nn: "0 \<le> ?abs ?ls" "0 \<le> ?abs ?rest" by (rule abs_sum_nonneg)+
  have first: "pushEntryWith add sub a (b, rows) e = pushEntry a (b, rows) e"
    unfolding pushEntryWith_def pushEntry_def
    using Cons.prems(1) wl bound nn by (intro foldl_pushLineWith [OF w]) auto
  obtain b' rows' where st: "pushEntry a (b, rows) e = (b', rows')"
    by (cases "pushEntry a (b, rows) e")
  then have b': "b' = b + sum_list (map (\<lambda>l. debit l - credit l) ?ls)"
    using fst_foldl_pushLine [of a e b rows ?ls] by (simp add: pushEntry_def)
  have "foldl (pushEntryWith add sub a) (b', rows') es = foldl (pushEntry a) (b', rows') es"
  proof (rule Cons.IH)
    show "b' \<in> \<int>" using Cons.prems(1) whole_sum [OF wl] by (simp add: b')
    show "\<forall>l \<in> set ?rest. debit l \<in> \<int> \<and> credit l \<in> \<int>" by (rule wr)
    have "\<bar>b'\<bar> \<le> \<bar>b\<bar> + ?abs ?ls"
      using abs_sum_le [of ?ls] unfolding b' by linarith
    with bound show "\<bar>b'\<bar> + ?abs ?rest < 2 ^ 53" by simp
  qed
  then show ?case by (simp add: first st)
qed

lemma filter_allLines_sum:
  "sum_list (map g (filter P (allLines es)))
     = (sum_list (map (\<lambda>e. sum_list (map g (filter P (lines e)))) es) :: rat)"
  by (induction es) (simp_all add: allLines_def)

lemma wholeAmounts_js_sort:
  "wholeAmounts (filter P (allLines (js_sort cmp es))) = wholeAmounts (filter P (allLines es))"
  by (simp add: wholeAmounts_def filter_allLines_sum sum_list_js_sort set_allLines_js_sort)

lemma buildLedgerEntriesWith_exact:
  assumes "wholeExact add sub"
    and "wholeAmounts (filter (\<lambda>l. accountId l = acc_id a) (allLines (filter (inRange f t) es)))"
  shows "buildLedgerEntriesWith add sub lc es a f t = buildLedgerEntries lc es a f t"
proof -
  let ?J = "js_sort (\<lambda>a b. lc (date a) (date b)) (filter (inRange f t) es)"
  from assms(2) have "wholeAmounts (filter (\<lambda>l. accountId l = acc_id a) (allLines ?J))"
    by (simp only: wholeAmounts_js_sort)
  then have "foldl (pushEntryWith add sub a) (0, []) ?J = foldl (pushEntry a) (0, []) ?J"
    using assms(1) by (intro foldl_pushEntryWith) (simp_all add: wholeAmounts_def)
  then show ?thesis
    by (simp add: buildLedgerEntriesWith_def buildLedgerEntries_def Let_def)
qed

lemma ledger_last_exact:
  assumes ne: "buildLedgerEntries lc es a f t \<noteq> []"
  shows "computeAccountBalances (filter (inRange f t) es) (acc_id a)
           = Some (le_balance (last (buildLedgerEntries lc es a f t)))"
proof -
  let ?X = "filter (inRange f t) es"
  let ?S = "js_sort (\<lambda>a b. lc (date a) (date b)) ?X"
  from ne have pne: "postings a ?S \<noteq> []"
    by (auto simp: buildLedgerEntries_runningRows)
  then have "acc_id a \<in> accountId ` set (allLines ?S)"
    by (simp add: postings_empty_iff)
  then have mem: "acc_id a \<in> accountId ` set (allLines ?X)"
    by (simp only: set_allLines_js_sort)
  have "le_balance (last (buildLedgerEntries lc es a f t))
          = sum_list (map (\<lambda>p. debit (snd p) - credit (snd p)) (postings a ?S))"
    using pne by (simp add: buildLedgerEntries_runningRows runningRows_last)
  also have "\<dots> = sum_list (map (\<lambda>e. balanceOf (acc_id a) (lines e)) ?S)"
    by (rule postings_sum)
  also have "\<dots> = sum_list (map (\<lambda>e. balanceOf (acc_id a) (lines e)) ?X)"
    by (rule sum_list_js_sort)
  also have "\<dots> = balanceOf (acc_id a) (allLines ?X)"
    by (simp add: balanceOf_allLines)
  finally show ?thesis
    using mem by (simp add: computeAccountBalances_apply)
qed

section \<open>The ledger and the aggregator\<close>

text \<open>
  C9, as stated, fails in the arithmetic of doubles: the aggregator adds the amounts in the
  order of the entry list and the ledger in the order of the dates. For three cash sales of
  0.1, 0.2 and 0.3 listed newest first, the ledger ends at 0.6 and the aggregator gives
  0.6000000000000001.
\<close>

theorem ledger_final_balance_counterexample:
  "map le_balance (buildLedgerEntriesWith dadd dsub codeUnitCompare tenths cash
       ''2024-01-01'' ''2024-12-31'')
     = [5404319552844595 / 18014398509481984, 1 / 2, 5404319552844595 / 9007199254740992]
   \<and> computeAccountBalancesWith dadd dsub
       (filter (\<lambda>e. ''2024-01-01'' \<le> date e \<and> date e \<le> ''2024-12-31'') tenths) (acc_id cash)
     = Some (1351079888211149 / 2251799813685248)
   \<and> computeAccountBalancesWith dadd dsub
       (filter (\<lambda>e. ''2024-01-01'' \<le> date e \<and> date e \<le> ''2024-12-31'') tenths) (acc_id cash)
     \<noteq> Some (le_balance (last (buildLedgerEntriesWith dadd dsub codeUnitCompare tenths cash
            ''2024-01-01'' ''2024-12-31'')))"
proof -
  have rows: "map le_balance (buildLedgerEntriesWith dadd dsub codeUnitCompare tenths cash
       ''2024-01-01'' ''2024-12-31'')
     = [5404319552844595 / 18014398509481984, 1 / 2, 5404319552844595 / 9007199254740992]"
    by code_simp
  have agg: "computeAccountBalancesWith dadd dsub
       (filter (\<lambda>e. ''2024-01-01'' \<le> date e \<and> date e \<le> ''2024-12-31'') tenths) (acc_id cash)
     = Some (1351079888211149 / 2251799813685248)"
    by code_simp
  from rows have ne: "buildLedgerEntriesWith dadd dsub codeUnitCompare tenths cash
       ''2024-01-01'' ''2024-12-31'' \<noteq> []"
    by auto
  have "le_balance (last (buildLedgerEntriesWith dadd dsub codeUnitCompare tenths cash
       ''2024-01-01'' ''2024-12-31''))
     = last (map le_balance (buildLedgerEntriesWith dadd dsub codeUnitCompare tenths cash
       ''2024-01-01'' ''2024-12-31''))"
    using ne by (simp add: last_map)
  also have "\<dots> = 5404319552844595 / 9007199254740992"
    by (simp add: rows)
  finally show ?thesis
    using rows agg by simp
qed

text \<open>
  C9, amended. Let the addition and the subtraction of the runtime be exact on whole
  numbers below \<open>2 ^ 53\<close>, as those of doubles are, and let the debits and credits of the
  account's lines in the entries \<open>e\<close> with \<open>fromDate \<le> date e \<le> toDate\<close> be whole numbers
  whose absolute values add up to less than \<open>2 ^ 53\<close>. Then, whenever the ledger of the
  account has a row, the balance of its last row is the value the aggregator assigns to the
  account's id on these entries.
\<close>

theorem ledger_final_balance:
  "wholeExact add sub
   \<and> wholeAmounts (filter (\<lambda>l. accountId l = acc_id a)
        (allLines (filter (\<lambda>e. f \<le> date e \<and> date e \<le> t) es)))
   \<and> buildLedgerEntriesWith add sub lc es a f t \<noteq> []
   \<longrightarrow> computeAccountBalancesWith add sub (filter (\<lambda>e. f \<le> date e \<and> date e \<le> t) es) (acc_id a)
       = Some (le_balance (last (buildLedgerEntriesWith add sub lc es a f t)))"
proof
  assume h: "wholeExact add sub
   \<and> wholeAmounts (filter (\<lambda>l. accountId l = acc_id a)
        (allLines (filter (\<lambda>e. f \<le> date e \<and> date e \<le> t) es)))
   \<and> buildLedgerEntriesWith add sub lc es a f t \<noteq> []"
  then have w: "wholeExact add sub"
    and whole: "wholeAmounts (filter (\<lambda>l. accountId l = acc_id a) (allLines (filter (inRange f t) es)))"
    by (simp_all add: inRange_filter)
  have led: "buildLedgerEntriesWith add sub lc es a f t = buildLedgerEntries lc es a f t"
    using w whole by (rule buildLedgerEntriesWith_exact)
  have agg: "computeAccountBalancesWith add sub (filter (inRange f t) es) (acc_id a)
               = computeAccountBalances (filter (inRange f t) es) (acc_id a)"
    using w whole by (rule computeAccountBalancesWith_exact)
  from h led have "buildLedgerEntries lc es a f t \<noteq> []" by simp
  then have "computeAccountBalances (filter (inRange f t) es) (acc_id a)
           = Some (le_balance (last (buildLedgerEntries lc es a f t)))"
    by (rule ledger_last_exact)
  then show "computeAccountBalancesWith add sub (filter (\<lambda>e. f \<le> date e \<and> date e \<le> t) es) (acc_id a)
       = Some (le_balance (last (buildLedgerEntriesWith add sub lc es a f t)))"
    using agg led by (simp add: inRange_filter)
qed

theorem ledger_final_balance_witness:
  "map le_balance (buildLedgerEntriesWith dadd dsub codeUnitCompare
       [lateFee, feePaid, earlySale, sale, rentPaid] cash ''2024-03-05'' ''2024-05-10'')
     = [100, 60, 50]
   \<and> computeAccountBalancesWith dadd dsub
       (filter (\<lambda>e. ''2024-03-05'' \<le> date e \<and> date e \<le> ''2024-05-10'')
          [lateFee, feePaid, earlySale, sale, rentPaid]) (acc_id cash)
     = Some 50"
proof -
  let ?es = "[lateFee, feePaid, earlySale, sale, rentPaid]"
  let ?rows = "buildLedgerEntriesWith dadd dsub codeUnitCompare ?es cash ''2024-03-05'' ''2024-05-10''"
  have rows: "map le_balance ?rows = [100, 60, 50]"
    by code_simp
  then have ne: "?rows \<noteq> []" by auto
  have "le_balance (last ?rows) = last (map le_balance ?rows)"
    using ne by (simp add: last_map)
  then have last: "le_balance (last ?rows) = 50"
    by (simp add: rows)
  have whole: "wholeAmounts (filter (\<lambda>l. accountId l = acc_id cash)
        (allLines (filter (\<lambda>e. ''2024-03-05'' \<le> date e \<and> date e \<le> ''2024-05-10'') ?es)))"
    by (simp add: wholeAmounts_def allLines_def sale_def rentPaid_def feePaid_def earlySale_def
        lateFee_def cash_def)
  have "computeAccountBalancesWith dadd dsub
       (filter (\<lambda>e. ''2024-03-05'' \<le> date e \<and> date e \<le> ''2024-05-10'') ?es) (acc_id cash)
     = Some (le_balance (last ?rows))"
    using ledger_final_balance [of dadd dsub cash "''2024-03-05''" "''2024-05-10''" ?es
        codeUnitCompare] wholeExact_double whole ne
    by blast
  with rows last show ?thesis by simp
qed

section \<open>Trial balance totals\<close>

text \<open>
  C1, as stated, fails: the totals of the trial balance differ when an entry of the period
  references an account that is not in the account list (the sale, with the sales account
  taken out of the list), when an entry does not balance (the one-legged entry), and when
  two accounts of the list share an id.
\<close>

theorem trialBalance_totals_counterexample:
  "totalDebit (trialBalance (buildReports [sale] [cash] ''2024-01-01'' ''2024-12-31''))
     \<noteq> totalCredit (trialBalance (buildReports [sale] [cash] ''2024-01-01'' ''2024-12-31''))
   \<and> totalDebit (trialBalance (buildReports [oneLegged] [cash, sales] ''2024-01-01'' ''2024-12-31''))
     \<noteq> totalCredit (trialBalance (buildReports [oneLegged] [cash, sales] ''2024-01-01'' ''2024-12-31''))
   \<and> totalDebit (trialBalance (buildReports [sale] [cash, cash, sales] ''2024-01-01'' ''2024-12-31''))
     \<noteq> totalCredit (trialBalance (buildReports [sale] [cash, cash, sales] ''2024-01-01'' ''2024-12-31''))"
  by (simp add: totals_buildReports tb_lines_buildReports periodBalance_def sample_eval)
     (simp add: sale_def oneLegged_def cash_def sales_def balanceOf_def)

lemma balanced_totals_exact:
  assumes "\<forall>e \<in> set es. inRange f t e \<longrightarrow> entryBalanced e"
    and "distinct (map acc_id accs)"
    and "\<forall>l \<in> set (allLines (filter (inRange f t) es)). accountId l \<in> acc_id ` set accs"
  shows "totalDebit (trialBalance (buildReports es accs f t))
          = totalCredit (trialBalance (buildReports es accs f t))"
proof -
  let ?L = "allLines (filter (inRange f t) es)"
  have "totalDebit (trialBalance (buildReports es accs f t))
        - totalCredit (trialBalance (buildReports es accs f t))
        = sum_list (map (\<lambda>a. max (periodBalance es f t (acc_id a)) 0
                              - max (- periodBalance es f t (acc_id a)) 0) accs)"
    by (simp add: totals_buildReports tb_lines_buildReports sum_list_subtractf comp_def)
  also have "\<dots> = sum_list (map (\<lambda>a. balanceOf (acc_id a) ?L) accs)"
    by (simp add: max_diff periodBalance_def)
  also have "\<dots> = sum_list (map (\<lambda>l. debit l - credit l) ?L)"
    using assms by (intro sum_balanceOf_accounts) auto
  also have "\<dots> = 0"
    using assms by (intro balanced_lines_sum) auto
  finally show ?thesis by simp
qed

lemma tb_lines_buildReportsWith:
  "tb_lines (trialBalance (buildReportsWith add sub es accs f t))
     = map (trialBalanceLine (computeAccountBalancesWith add sub (filter (inRange f t) es))) accs"
  by (simp add: buildReportsWith_def Let_def)

lemma tb_lines_buildReports_raw:
  "tb_lines (trialBalance (buildReports es accs f t))
     = map (trialBalanceLine (computeAccountBalances (filter (inRange f t) es))) accs"
  by (simp add: buildReports_def Let_def)

lemma totals_buildReportsWith:
  "totalDebit (trialBalance (buildReportsWith add sub es accs f t))
     = foldl (\<lambda>acc line. add acc (tb_debit line)) 0
         (tb_lines (trialBalance (buildReportsWith add sub es accs f t)))"
  "totalCredit (trialBalance (buildReportsWith add sub es accs f t))
     = foldl (\<lambda>acc line. add acc (tb_credit line)) 0
         (tb_lines (trialBalance (buildReportsWith add sub es accs f t)))"
  by (simp_all add: buildReportsWith_def Let_def)

lemma totals_buildReports_raw:
  "totalDebit (trialBalance (buildReports es accs f t))
     = foldl (\<lambda>acc line. acc + tb_debit line) 0 (tb_lines (trialBalance (buildReports es accs f t)))"
  "totalCredit (trialBalance (buildReports es accs f t))
     = foldl (\<lambda>acc line. acc + tb_credit line) 0 (tb_lines (trialBalance (buildReports es accs f t)))"
  by (simp_all add: buildReports_def Let_def)

lemma foldl_add_exact:
  assumes w: "wholeExact add sub"
  shows "a \<in> \<int> \<Longrightarrow> (\<forall>x \<in> set xs. g x \<in> \<int>) \<Longrightarrow> \<bar>a\<bar> + sum_list (map (\<lambda>x. \<bar>g x\<bar>) xs) < 2 ^ 53 \<Longrightarrow>
     foldl (\<lambda>acc x. add acc (g x)) a xs = foldl (\<lambda>acc x. acc + g x) a xs"
proof (induction xs arbitrary: a)
  case Nil
  then show ?case by simp
next
  case (Cons x xs)
  let ?r = "sum_list (map (\<lambda>x. \<bar>g x\<bar>) xs)"
  have r: "0 \<le> ?r" by (induction xs) simp_all
  from Cons.prems have gx: "g x \<in> \<int>" and bound: "\<bar>a\<bar> + (\<bar>g x\<bar> + ?r) < 2 ^ 53"
    by simp_all
  have ex: "add a (g x) = a + g x"
    using w Cons.prems(1) gx bound r by (intro wholeExact_add [of add sub]) auto
  have "foldl (\<lambda>acc x. add acc (g x)) (a + g x) xs = foldl (\<lambda>acc x. acc + g x) (a + g x) xs"
  proof (rule Cons.IH)
    show "a + g x \<in> \<int>" using Cons.prems(1) gx by simp
    show "\<forall>x \<in> set xs. g x \<in> \<int>" using Cons.prems(2) by simp
    have "\<bar>a + g x\<bar> \<le> \<bar>a\<bar> + \<bar>g x\<bar>" by linarith
    with bound show "\<bar>a + g x\<bar> + ?r < 2 ^ 53" by simp
  qed
  then show ?case by (simp add: ex)
qed

lemma wholeAmounts_filter: "wholeAmounts ls \<Longrightarrow> wholeAmounts (filter P ls)"
proof -
  have "sum_list (map (\<lambda>l. \<bar>debit l\<bar> + \<bar>credit l\<bar>) (filter P ls))
          \<le> sum_list (map (\<lambda>l. \<bar>debit l\<bar> + \<bar>credit l\<bar>) ls)"
    by (induction ls) (simp_all add: add_increasing)
  then show "wholeAmounts ls \<Longrightarrow> wholeAmounts (filter P ls)"
    by (auto simp: wholeAmounts_def)
qed

lemma balanceOf_whole: "wholeAmounts ls \<Longrightarrow> balanceOf k ls \<in> \<int>"
proof -
  assume "wholeAmounts ls"
  then have "\<forall>l \<in> set (filter (\<lambda>l. accountId l = k) ls). debit l \<in> \<int> \<and> credit l \<in> \<int>"
    by (simp add: wholeAmounts_def)
  then show ?thesis unfolding balanceOf_def by (rule whole_sum)
qed

lemma sum_abs_single:
  "distinct (map acc_id accs) \<Longrightarrow>
     sum_list (map (\<lambda>a. \<bar>if k = acc_id a then (c::rat) else 0\<bar>) accs) \<le> \<bar>c\<bar>"
proof (induction accs)
  case Nil
  then show ?case by simp
next
  case (Cons a accs)
  show ?case
  proof (cases "k = acc_id a")
    case True
    with Cons.prems have "k \<notin> acc_id ` set accs" by auto
    then have "sum_list (map (\<lambda>a. \<bar>if k = acc_id a then c else 0\<bar>) accs) = 0"
      by (induction accs) auto
    with True show ?thesis by simp
  next
    case False
    with Cons show ?thesis by auto
  qed
qed

lemma sum_abs_balances:
  "distinct (map acc_id accs) \<Longrightarrow>
     sum_list (map (\<lambda>a. \<bar>balanceOf (acc_id a) ls\<bar>) accs)
       \<le> sum_list (map (\<lambda>l. \<bar>debit l\<bar> + \<bar>credit l\<bar>) ls)"
proof (induction ls)
  case Nil
  then show ?case by (simp add: balanceOf_def)
next
  case (Cons l ls)
  have "sum_list (map (\<lambda>a. \<bar>balanceOf (acc_id a) (l # ls)\<bar>) accs)
          \<le> sum_list (map (\<lambda>a. \<bar>if accountId l = acc_id a then debit l - credit l else 0\<bar>
                                + \<bar>balanceOf (acc_id a) ls\<bar>) accs)"
    by (intro sum_list_mono) (simp add: balanceOf_Cons)
  also have "\<dots> = sum_list (map (\<lambda>a. \<bar>if accountId l = acc_id a then debit l - credit l else 0\<bar>) accs)
                  + sum_list (map (\<lambda>a. \<bar>balanceOf (acc_id a) ls\<bar>) accs)"
    by (simp add: sum_list_addf)
  also have "\<dots> \<le> \<bar>debit l - credit l\<bar> + sum_list (map (\<lambda>l. \<bar>debit l\<bar> + \<bar>credit l\<bar>) ls)"
    using sum_abs_single [OF Cons.prems, of "accountId l" "debit l - credit l"] Cons.IH [OF Cons.prems]
    by linarith
  also have "\<dots> \<le> \<bar>debit l\<bar> + \<bar>credit l\<bar> + sum_list (map (\<lambda>l. \<bar>debit l\<bar> + \<bar>credit l\<bar>) ls)"
    by linarith
  finally show ?case by simp
qed

lemma trialBalanceWith_exact:
  assumes w: "wholeExact add sub"
    and whole: "wholeAmounts (allLines (filter (inRange f t) es))"
    and dist: "distinct (map acc_id accs)"
  shows "tb_lines (trialBalance (buildReportsWith add sub es accs f t))
           = tb_lines (trialBalance (buildReports es accs f t))"
    and "totalDebit (trialBalance (buildReportsWith add sub es accs f t))
           = totalDebit (trialBalance (buildReports es accs f t))"
    and "totalCredit (trialBalance (buildReportsWith add sub es accs f t))
           = totalCredit (trialBalance (buildReports es accs f t))"
proof -
  let ?X = "filter (inRange f t) es"
  let ?L = "allLines ?X"
  let ?lines = "tb_lines (trialBalance (buildReports es accs f t))"
  have "computeAccountBalancesWith add sub ?X k = computeAccountBalances ?X k" for k
    using w wholeAmounts_filter [OF whole] by (rule computeAccountBalancesWith_exact)
  then have "computeAccountBalancesWith add sub ?X = computeAccountBalances ?X"
    by (rule ext)
  then show lines: "tb_lines (trialBalance (buildReportsWith add sub es accs f t)) = ?lines"
    by (simp add: tb_lines_buildReportsWith tb_lines_buildReports_raw)
  have bw: "periodBalance es f t k \<in> \<int>" for k
    unfolding periodBalance_def using whole by (rule balanceOf_whole)
  have bound: "sum_list (map (\<lambda>a. \<bar>periodBalance es f t (acc_id a)\<bar>) accs) < 2 ^ 53"
    using sum_abs_balances [OF dist, of ?L] whole
    by (simp add: periodBalance_def wholeAmounts_def)
  have d_whole: "\<forall>x \<in> set ?lines. tb_debit x \<in> \<int>"
    using bw by (auto simp: tb_lines_buildReports max_def)
  have c_whole: "\<forall>x \<in> set ?lines. tb_credit x \<in> \<int>"
    using bw by (auto simp: tb_lines_buildReports max_def)
  have "sum_list (map (\<lambda>x. \<bar>tb_debit x\<bar>) ?lines)
          \<le> sum_list (map (\<lambda>a. \<bar>periodBalance es f t (acc_id a)\<bar>) accs)"
    unfolding tb_lines_buildReports by (simp add: comp_def) (intro sum_list_mono, simp)
  with bound have d_bound: "\<bar>0::rat\<bar> + sum_list (map (\<lambda>x. \<bar>tb_debit x\<bar>) ?lines) < 2 ^ 53"
    by simp
  have "sum_list (map (\<lambda>x. \<bar>tb_credit x\<bar>) ?lines)
          \<le> sum_list (map (\<lambda>a. \<bar>periodBalance es f t (acc_id a)\<bar>) accs)"
    unfolding tb_lines_buildReports by (simp add: comp_def) (intro sum_list_mono, simp)
  with bound have c_bound: "\<bar>0::rat\<bar> + sum_list (map (\<lambda>x. \<bar>tb_credit x\<bar>) ?lines) < 2 ^ 53"
    by simp
  show "totalDebit (trialBalance (buildReportsWith add sub es accs f t))
           = totalDebit (trialBalance (buildReports es accs f t))"
    unfolding totals_buildReportsWith totals_buildReports_raw lines
    using d_whole d_bound by (intro foldl_add_exact [OF w]) simp_all
  show "totalCredit (trialBalance (buildReportsWith add sub es accs f t))
           = totalCredit (trialBalance (buildReports es accs f t))"
    unfolding totals_buildReportsWith totals_buildReports_raw lines
    using c_whole c_bound by (intro foldl_add_exact [OF w]) simp_all
qed

text \<open>
  C1, amended. For every list of entries and every account list, the trial balance has one
  line per account of the list, with debit \<open>max balance 0\<close> and credit \<open>max (- balance) 0\<close>,
  where the balance is the value the aggregator gives for the account on the entries \<open>e\<close>
  with \<open>fromDate \<le> date e \<le> toDate\<close> (0 when it gives none). The total debit equals the
  total credit when every one of these entries balances, the ids of the account list are
  distinct, every line of these entries references an account of the list, and no sum
  rounds: the addition and subtraction of the runtime are exact on whole numbers below
  \<open>2 ^ 53\<close>, as those of doubles are, and the debits and credits of these entries are whole
  numbers whose absolute values add up to less than \<open>2 ^ 53\<close>.
\<close>

theorem trialBalance_totals:
  "tb_lines (trialBalance (buildReportsWith add sub es accs f t)) =
     map (\<lambda>a. \<lparr> tb_account = a,
               tb_debit = max (getOr0 (computeAccountBalancesWith add sub
                    (filter (\<lambda>e. f \<le> date e \<and> date e \<le> t) es)) (acc_id a)) 0,
               tb_credit = max (- getOr0 (computeAccountBalancesWith add sub
                    (filter (\<lambda>e. f \<le> date e \<and> date e \<le> t) es)) (acc_id a)) 0 \<rparr>) accs
   \<and> (wholeExact add sub
      \<and> wholeAmounts (allLines (filter (\<lambda>e. f \<le> date e \<and> date e \<le> t) es))
      \<and> (\<forall>e \<in> set es. f \<le> date e \<and> date e \<le> t \<longrightarrow> entryBalanced e)
      \<and> distinct (map acc_id accs)
      \<and> (\<forall>l \<in> set (allLines (filter (\<lambda>e. f \<le> date e \<and> date e \<le> t) es)).
            accountId l \<in> acc_id ` set accs)
      \<longrightarrow> totalDebit (trialBalance (buildReportsWith add sub es accs f t))
          = totalCredit (trialBalance (buildReportsWith add sub es accs f t)))"
proof (intro conjI impI)
  show "tb_lines (trialBalance (buildReportsWith add sub es accs f t)) =
     map (\<lambda>a. \<lparr> tb_account = a,
               tb_debit = max (getOr0 (computeAccountBalancesWith add sub
                    (filter (\<lambda>e. f \<le> date e \<and> date e \<le> t) es)) (acc_id a)) 0,
               tb_credit = max (- getOr0 (computeAccountBalancesWith add sub
                    (filter (\<lambda>e. f \<le> date e \<and> date e \<le> t) es)) (acc_id a)) 0 \<rparr>) accs"
    by (simp add: tb_lines_buildReportsWith trialBalanceLine_def Let_def inRange_filter max_def)
next
  assume h: "wholeExact add sub
      \<and> wholeAmounts (allLines (filter (\<lambda>e. f \<le> date e \<and> date e \<le> t) es))
      \<and> (\<forall>e \<in> set es. f \<le> date e \<and> date e \<le> t \<longrightarrow> entryBalanced e)
      \<and> distinct (map acc_id accs)
      \<and> (\<forall>l \<in> set (allLines (filter (\<lambda>e. f \<le> date e \<and> date e \<le> t) es)).
            accountId l \<in> acc_id ` set accs)"
  then have w: "wholeExact add sub"
    and whole: "wholeAmounts (allLines (filter (inRange f t) es))"
    and bal: "\<forall>e \<in> set es. inRange f t e \<longrightarrow> entryBalanced e"
    and dist: "distinct (map acc_id accs)"
    and listed: "\<forall>l \<in> set (allLines (filter (inRange f t) es)). accountId l \<in> acc_id ` set accs"
    by (simp_all add: inRange_filter) (simp add: inRange_def)
  show "totalDebit (trialBalance (buildReportsWith add sub es accs f t))
          = totalCredit (trialBalance (buildReportsWith add sub es accs f t))"
    unfolding trialBalanceWith_exact(2,3) [OF w whole dist]
    using bal dist listed by (rule balanced_totals_exact)
qed

theorem trialBalance_totals_witness:
  "totalDebit (trialBalance (buildReportsWith dadd dsub [oneLegged, sale] [cash, sales]
       ''2024-03-01'' ''2024-03-31'')) = 100
   \<and> totalCredit (trialBalance (buildReportsWith dadd dsub [oneLegged, sale] [cash, sales]
       ''2024-03-01'' ''2024-03-31'')) = 100"
proof -
  have X: "filter (\<lambda>e. ''2024-03-01'' \<le> date e \<and> date e \<le> ''2024-03-31'') [oneLegged, sale] = [sale]"
    by (simp add: sale_def oneLegged_def)
  have h: "wholeExact dadd dsub
      \<and> wholeAmounts (allLines (filter (\<lambda>e. ''2024-03-01'' \<le> date e \<and> date e \<le> ''2024-03-31'')
           [oneLegged, sale]))
      \<and> (\<forall>e \<in> set [oneLegged, sale].
            ''2024-03-01'' \<le> date e \<and> date e \<le> ''2024-03-31'' \<longrightarrow> entryBalanced e)
      \<and> distinct (map acc_id [cash, sales])
      \<and> (\<forall>l \<in> set (allLines (filter (\<lambda>e. ''2024-03-01'' \<le> date e \<and> date e \<le> ''2024-03-31'')
              [oneLegged, sale])). accountId l \<in> acc_id ` set [cash, sales])"
    unfolding X
    by (simp add: wholeExact_double sample_eval wholeAmounts_def)
       (simp add: sale_def oneLegged_def cash_def sales_def)
  have "totalDebit (trialBalance (buildReportsWith dadd dsub [oneLegged, sale] [cash, sales]
       ''2024-03-01'' ''2024-03-31''))
      = totalCredit (trialBalance (buildReportsWith dadd dsub [oneLegged, sale] [cash, sales]
       ''2024-03-01'' ''2024-03-31''))"
    by (rule trialBalance_totals [of dadd dsub "[oneLegged, sale]" "[cash, sales]"
          "''2024-03-01''" "''2024-03-31''", THEN conjunct2, THEN mp, OF h])
  moreover have "totalDebit (trialBalance (buildReportsWith dadd dsub [oneLegged, sale] [cash, sales]
       ''2024-03-01'' ''2024-03-31'')) = 100"
    by code_simp
  ultimately show ?thesis by simp
qed

section \<open>The dashboard margin\<close>

lemma summary_buildDashboardMetrics:
  "sm_margin (summary (buildDashboardMetrics lbl lc es accs))
     = (if sm_revenue (summary (buildDashboardMetrics lbl lc es accs)) = 0 then Some 0
        else map_option (\<lambda>q. q * 100)
               (js_div (sm_profit (summary (buildDashboardMetrics lbl lc es accs)))
                       (sm_revenue (summary (buildDashboardMetrics lbl lc es accs)))))"
  "sm_profit (summary (buildDashboardMetrics lbl lc es accs))
     = sm_revenue (summary (buildDashboardMetrics lbl lc es accs))
       - sm_expense (summary (buildDashboardMetrics lbl lc es accs))"
  by (simp_all add: buildDashboardMetrics_def Let_def)

text \<open>
  C8. The summary margin of \<open>buildDashboardMetrics\<close> is 0 when the revenue of the summary is
  0, and the quotient of the summary's profit by its revenue, times 100, otherwise: the
  division is made only with a divisor that is not 0. The profit is the revenue minus the
  expense. So the margin is the number 0, and not the outcome of a division by zero, whenever
  the revenue is 0, whatever the expense, and in particular when both are 0; and when the
  revenue is not 0 and the margin is a number, that number is profit / revenue * 100.
\<close>

theorem dashboard_margin:
  "sm_margin (summary (buildDashboardMetrics lbl lc es accs))
     = (if sm_revenue (summary (buildDashboardMetrics lbl lc es accs)) = 0 then Some 0
        else map_option (\<lambda>q. q * 100)
               (js_div (sm_profit (summary (buildDashboardMetrics lbl lc es accs)))
                       (sm_revenue (summary (buildDashboardMetrics lbl lc es accs)))))
   \<and> sm_profit (summary (buildDashboardMetrics lbl lc es accs))
     = sm_revenue (summary (buildDashboardMetrics lbl lc es accs))
       - sm_expense (summary (buildDashboardMetrics lbl lc es accs))
   \<and> (sm_revenue (summary (buildDashboardMetrics lbl lc es accs)) = 0
      \<longrightarrow> sm_margin (summary (buildDashboardMetrics lbl lc es accs)) = Some 0)
   \<and> (sm_revenue (summary (buildDashboardMetrics lbl lc es accs)) = 0
      \<and> sm_expense (summary (buildDashboardMetrics lbl lc es accs)) = 0
      \<longrightarrow> sm_margin (summary (buildDashboardMetrics lbl lc es accs)) = Some 0)
   \<and> (\<forall>m. sm_revenue (summary (buildDashboardMetrics lbl lc es accs)) \<noteq> 0
          \<and> sm_margin (summary (buildDashboardMetrics lbl lc es accs)) = Some m
      \<longrightarrow> m = sm_profit (summary (buildDashboardMetrics lbl lc es accs))
              / sm_revenue (summary (buildDashboardMetrics lbl lc es accs)) * 100)"
proof (intro conjI impI allI)
  show "sm_margin (summary (buildDashboardMetrics lbl lc es accs)) = Some 0"
    if "sm_revenue (summary (buildDashboardMetrics lbl lc es accs)) = 0"
    using that by (simp add: summary_buildDashboardMetrics(1))
  show "sm_margin (summary (buildDashboardMetrics lbl lc es accs)) = Some 0"
    if "sm_revenue (summary (buildDashboardMetrics lbl lc es accs)) = 0
      \<and> sm_expense (summary (buildDashboardMetrics lbl lc es accs)) = 0"
    using that by (simp add: summary_buildDashboardMetrics(1))
  show "m = sm_profit (summary (buildDashboardMetrics lbl lc es accs))
              / sm_revenue (summary (buildDashboardMetrics lbl lc es accs)) * 100"
    if "sm_revenue (summary (buildDashboardMetrics lbl lc es accs)) \<noteq> 0
          \<and> sm_margin (summary (buildDashboardMetrics lbl lc es accs)) = Some m" for m
    using that summary_buildDashboardMetrics(1) [of lbl lc es accs]
    by (auto simp: js_div_def)
qed (rule summary_buildDashboardMetrics)+

theorem dashboard_margin_witness:
  "sm_margin (summary (buildDashboardMetrics (take 7) codeUnitCompare [] [cash, sales, rentAccount]))
     = Some 0
   \<and> sm_expense (summary (buildDashboardMetrics (take 7) codeUnitCompare [rentPaid]
        [cash, sales, rentAccount])) = 40
   \<and> sm_margin (summary (buildDashboardMetrics (take 7) codeUnitCompare [rentPaid]
        [cash, sales, rentAccount])) = Some 0
   \<and> sm_margin (summary (buildDashboardMetrics (take 7) codeUnitCompare [sale, rentPaid]
        [cash, sales, rentAccount])) = Some 60"
proof -
  let ?accs = "[cash, sales, rentAccount]"
  have r0: "sm_revenue (summary (buildDashboardMetrics (take 7) codeUnitCompare [] ?accs)) = 0"
    by code_simp
  have r1: "sm_revenue (summary (buildDashboardMetrics (take 7) codeUnitCompare [rentPaid] ?accs)) = 0"
    by code_simp
  have x1: "sm_expense (summary (buildDashboardMetrics (take 7) codeUnitCompare [rentPaid] ?accs)) = 40"
    by code_simp
  have r2: "sm_revenue (summary (buildDashboardMetrics (take 7) codeUnitCompare [sale, rentPaid] ?accs))
              = 100"
    by code_simp
  have x2: "sm_expense (summary (buildDashboardMetrics (take 7) codeUnitCompare [sale, rentPaid] ?accs))
              = 40"
    by code_simp
  have c0: "sm_margin (summary (buildDashboardMetrics (take 7) codeUnitCompare [] ?accs)) = Some 0"
    by (rule dashboard_margin [of "take 7" codeUnitCompare "[]" ?accs,
          THEN conjunct2, THEN conjunct2, THEN conjunct1, THEN mp, OF r0])
  have c1: "sm_margin (summary (buildDashboardMetrics (take 7) codeUnitCompare [rentPaid] ?accs))
              = Some 0"
    by (rule dashboard_margin [of "take 7" codeUnitCompare "[rentPaid]" ?accs,
          THEN conjunct2, THEN conjunct2, THEN conjunct1, THEN mp, OF r1])
  note T2 = dashboard_margin [of "take 7" codeUnitCompare "[sale, rentPaid]" ?accs]
  have "sm_margin (summary (buildDashboardMetrics (take 7) codeUnitCompare [sale, rentPaid] ?accs))
          = Some 60"
    unfolding T2 [THEN conjunct1] T2 [THEN conjunct2, THEN conjunct1] r2 x2
    by (simp add: js_div_def)
  with c0 c1 x1 show ?thesis by simp
qed

end
